theory Spec2Isabelle
  imports Main "HOL-Library.Word"
begin

section \<open>Python values: text, bytes and exceptions\<close>

text \<open>
  A Python \<open>str\<close> is a sequence of Unicode code points, a \<open>bytes\<close> object a sequence
  of octets. Exceptions are values of the type \<open>error\<close>; a function that may raise
  returns \<open>error + 'a\<close>, with \<open>Inl\<close> for the exception.
\<close>

type_synonym str = "nat list"
type_synonym bytes = "8 word list"

datatype error =
    RuntimeError
  | ValueError
  | InvalidToken
  | UnicodeEncodeError
  | UnicodeDecodeError
  | IntegrityError
  | KeyError
  | OSError

text \<open>A string literal of the source, as code points.\<close>

definition py :: "string \<Rightarrow> str" where
  "py s = map of_char s"

text \<open>The same literal as ASCII bytes (a \<open>b"..."\<close> literal).\<close>

definition pyb :: "string \<Rightarrow> bytes" where
  "pyb s = map of_char s"

subsection \<open>\<open>str.strip()\<close>\<close>

text \<open>
  \<open>str.isspace\<close> of a single character: the code points Python treats as whitespace.
\<close>

definition isspace :: "nat \<Rightarrow> bool" where
  "isspace c \<longleftrightarrow>
     (9 \<le> c \<and> c \<le> 13) \<or> (28 \<le> c \<and> c \<le> 32) \<or> c = 133 \<or> c = 160 \<or> c = 5760 \<or>
     (8192 \<le> c \<and> c \<le> 8202) \<or> c = 8232 \<or> c = 8233 \<or> c = 8239 \<or> c = 8287 \<or> c = 12288"

definition strip :: "str \<Rightarrow> str" where
  "strip s = rev (dropWhile isspace (rev (dropWhile isspace s)))"

subsection \<open>UTF-8\<close>

definition is_surrogate :: "nat \<Rightarrow> bool" where
  "is_surrogate c \<longleftrightarrow> 55296 \<le> c \<and> c \<le> 57343"

text \<open>
  A \<open>str\<close> of Python holds code points up to U+10FFFF; lone surrogates may occur in it
  and are the only ones that \<open>encode("utf-8")\<close> refuses.
\<close>

text \<open>The octet with the given value (below 256).\<close>

definition byte :: "nat \<Rightarrow> 8 word" where
  "byte n = of_nat n"

definition encode_char :: "nat \<Rightarrow> bytes option" where
  "encode_char c =
     (if c < 128 then Some [byte c]
      else if c < 2048 then Some [byte (192 + c div 64), byte (128 + c mod 64)]
      else if c < 65536 then
        (if is_surrogate c then None
         else Some [byte (224 + c div 4096), byte (128 + (c div 64) mod 64),
                    byte (128 + c mod 64)])
      else if c < 1114112 then
        Some [byte (240 + c div 262144), byte (128 + (c div 4096) mod 64),
              byte (128 + (c div 64) mod 64), byte (128 + c mod 64)]
      else None)"

fun encode_utf8 :: "str \<Rightarrow> error + bytes" where
  "encode_utf8 [] = Inr []"
| "encode_utf8 (c # cs) =
     (case encode_char c of
        None \<Rightarrow> Inl UnicodeEncodeError
      | Some bs \<Rightarrow> (case encode_utf8 cs of Inl e \<Rightarrow> Inl e | Inr rest \<Rightarrow> Inr (bs @ rest)))"

definition cont :: "8 word \<Rightarrow> bool" where
  "cont b \<longleftrightarrow> 128 \<le> unat b \<and> unat b < 192"

definition cons_ok :: "nat \<Rightarrow> error + str \<Rightarrow> error + str" where
  "cons_ok c r = (case r of Inl e \<Rightarrow> Inl e | Inr cs \<Rightarrow> Inr (c # cs))"

text \<open>
  The strict decoder of \<open>bytes.decode("utf-8")\<close>: overlong forms, surrogates, code points
  above U+10FFFF and truncated sequences raise \<open>UnicodeDecodeError\<close>.
\<close>

fun decode_utf8 :: "bytes \<Rightarrow> error + str" where
  "decode_utf8 [] = Inr []"
| "decode_utf8 (b0 # bs) =
     (if unat b0 < 128 then cons_ok (unat b0) (decode_utf8 bs)
      else if 194 \<le> unat b0 \<and> unat b0 < 224 then
        (case bs of
           b1 # r \<Rightarrow>
             if cont b1
             then cons_ok ((unat b0 - 192) * 64 + (unat b1 - 128)) (decode_utf8 r)
             else Inl UnicodeDecodeError
         | _ \<Rightarrow> Inl UnicodeDecodeError)
      else if 224 \<le> unat b0 \<and> unat b0 < 240 then
        (case bs of
           b1 # b2 # r \<Rightarrow>
             if cont b1 \<and> cont b2 \<and>
                2048 \<le> (unat b0 - 224) * 4096 + (unat b1 - 128) * 64 + (unat b2 - 128) \<and>
                \<not> is_surrogate ((unat b0 - 224) * 4096 + (unat b1 - 128) * 64 + (unat b2 - 128))
             then cons_ok ((unat b0 - 224) * 4096 + (unat b1 - 128) * 64 + (unat b2 - 128))
                    (decode_utf8 r)
             else Inl UnicodeDecodeError
         | _ \<Rightarrow> Inl UnicodeDecodeError)
      else if 240 \<le> unat b0 \<and> unat b0 < 245 then
        (case bs of
           b1 # b2 # b3 # r \<Rightarrow>
             if cont b1 \<and> cont b2 \<and> cont b3 \<and>
                65536 \<le> (unat b0 - 240) * 262144 + (unat b1 - 128) * 4096 +
                         (unat b2 - 128) * 64 + (unat b3 - 128) \<and>
                (unat b0 - 240) * 262144 + (unat b1 - 128) * 4096 +
                  (unat b2 - 128) * 64 + (unat b3 - 128) < 1114112
             then cons_ok ((unat b0 - 240) * 262144 + (unat b1 - 128) * 4096 +
                           (unat b2 - 128) * 64 + (unat b3 - 128)) (decode_utf8 r)
             else Inl UnicodeDecodeError
         | _ \<Rightarrow> Inl UnicodeDecodeError)
      else Inl UnicodeDecodeError)"

text \<open>The strings \<open>encode("utf-8")\<close> accepts: Unicode scalar values only.\<close>

definition valid_str :: "str \<Rightarrow> bool" where
  "valid_str s \<longleftrightarrow> list_all (\<lambda>c. c < 1114112 \<and> \<not> is_surrogate c) s"


section \<open>The \<open>base64\<close> and \<open>cryptography.fernet\<close> libraries\<close>

text \<open>
  Both are libraries the program imports, not code of the repository. Base64 is modelled
  as the standard library computes it. Fernet is modelled symbolically, see below.
\<close>

subsection \<open>URL-safe base64\<close>



text \<open>
  \<open>base64.urlsafe_b64decode\<close> maps \<open>-\<close> to \<open>+\<close> and \<open>_\<close> to \<open>/\<close> and then decodes
  leniently: characters outside the alphabet are skipped, decoding stops at a complete
  padding, and an incomplete last group is an error.
\<close>

definition b64_value :: "8 word \<Rightarrow> nat option" where
  "b64_value c =
     (if 65 \<le> unat c \<and> unat c \<le> 90 then Some (unat c - 65)
      else if 97 \<le> unat c \<and> unat c \<le> 122 then Some (unat c - 71)
      else if 48 \<le> unat c \<and> unat c \<le> 57 then Some (unat c + 4)
      else if unat c = 43 \<or> unat c = 45 then Some 62
      else if unat c = 47 \<or> unat c = 95 then Some 63
      else None)"

text \<open>
  The decoding loop, with its variables \<open>quad_pos\<close>, \<open>leftchar\<close> and \<open>pads\<close> and the
  output so far.
\<close>

fun a2b_base64 :: "bytes \<Rightarrow> nat \<Rightarrow> nat \<Rightarrow> nat \<Rightarrow> bytes \<Rightarrow> bytes option" where
  "a2b_base64 [] quad_pos leftchar pads out = (if quad_pos \<noteq> 0 then None else Some out)"
| "a2b_base64 (c # cs) quad_pos leftchar pads out =
     (if c = 61 then
        (if 2 \<le> quad_pos then
           (if 4 \<le> quad_pos + (pads + 1) then Some out
            else a2b_base64 cs quad_pos leftchar (pads + 1) out)
         else a2b_base64 cs quad_pos leftchar pads out)
      else
        (case b64_value c of
           None \<Rightarrow> a2b_base64 cs quad_pos leftchar pads out
         | Some v \<Rightarrow>
             if quad_pos = 0 then a2b_base64 cs 1 v 0 out
             else if quad_pos = 1 then
               a2b_base64 cs 2 (v mod 16) 0 (out @ [byte (leftchar * 4 + v div 16)])
             else if quad_pos = 2 then
               a2b_base64 cs 3 (v mod 4) 0 (out @ [byte (leftchar * 16 + v div 4)])
             else a2b_base64 cs 0 0 0 (out @ [byte (leftchar * 64 + v)])))"

definition urlsafe_b64decode :: "bytes \<Rightarrow> bytes option" where
  "urlsafe_b64decode s = a2b_base64 s 0 0 0 []"

subsection \<open>Fernet\<close>

text \<open>
  A stored ciphertext. \<open>Token k t iv m\<close> stands for the byte string that
  \<open>Fernet(k).encrypt(m)\<close> returns when the clock reads \<open>t\<close> and \<open>os.urandom(16)\<close>
  returns \<open>iv\<close>; \<open>Raw bs\<close> is any byte string that is not a Fernet token. AES-CBC and
  the HMAC are idealised: a token opens under the key that made it and under no other,
  and nothing else is accepted.
\<close>

datatype blob = Token bytes nat bytes bytes | Raw bytes

text \<open>A \<open>Fernet\<close> object holds the 32 key bytes.\<close>

type_synonym fernet = bytes

text \<open>The clock reading and the random bytes one call of \<open>encrypt\<close> draws.\<close>

type_synonym draw = "nat \<times> bytes"

text \<open>\<open>Fernet(key)\<close>: the key must be 32 bytes in url-safe base64.\<close>

definition Fernet :: "bytes \<Rightarrow> error + fernet" where
  "Fernet key =
     (case urlsafe_b64decode key of
        None \<Rightarrow> Inl ValueError
      | Some k \<Rightarrow> if length k \<noteq> 32 then Inl ValueError else Inr k)"


definition fernet_encrypt :: "fernet \<Rightarrow> draw \<Rightarrow> bytes \<Rightarrow> blob" where
  "fernet_encrypt f d m = Token f (fst d) (snd d) m"

text \<open>\<open>decrypt\<close> is called without a \<open>ttl\<close>, so the time stamp is not checked.\<close>

fun fernet_decrypt :: "fernet \<Rightarrow> blob \<Rightarrow> error + bytes" where
  "fernet_decrypt f (Token k t iv m) = (if k = f then Inr m else Inl InvalidToken)"
| "fernet_decrypt f (Raw bs) = Inl InvalidToken"

text \<open>Truth value of a \<open>bytes\<close> object read from a column: empty is false.\<close>

fun blob_truthy :: "blob \<Rightarrow> bool" where
  "blob_truthy (Token k t iv m) = True"
| "blob_truthy (Raw bs) = (bs \<noteq> [])"

section \<open>Persistent state\<close>

text \<open>The three tables of \<open>init_db.py\<close>.\<close>

record user_row =
  u_id :: int
  u_username :: str
  u_password_hash :: str
  u_full_name :: "str option"
  u_security_level :: int
  u_emp_id :: "int option"

record employee_row =
  e_id :: int
  e_name :: str
  e_email :: "str option"
  e_department :: "str option"
  e_security_level :: "int option"

record payraise_row =
  pr_id :: int
  pr_emp_id :: int
  pr_user_id :: int
  payraise_date_encrypted :: blob
  raiseamt_encrypted :: blob
  comments_encrypted :: "blob option"

text \<open>
  \<open>seq_Employees\<close> and \<open>seq_EmpPayRaise\<close> are the entries of \<open>sqlite_sequence\<close>
  that \<open>AUTOINCREMENT\<close> keeps for the two tables: the largest id ever given out.
\<close>

record database =
  Users :: "user_row list"
  Employees :: "employee_row list"
  EmpPayRaise :: "payraise_row list"
  seq_Employees :: int
  seq_EmpPayRaise :: int

text \<open>The file \<open>key.key\<close> at the project root: its bytes and its permission bits.\<close>

record key_file =
  content :: bytes
  mode :: nat

text \<open>
  Everything the functions read and write beyond their arguments: the variable
  \<open>FERNET_KEY\<close> of \<open>os.environ\<close> (the only one the program looks up), the key file,
  whether the project root, the directory of the key file, can be written to, the
  module variable \<open>_FERNET_INSTANCE\<close> and the database \<open>app.db\<close>.
\<close>

record world =
  environ_FERNET_KEY :: "str option"
  key_path :: "key_file option"
  root_writable :: bool
  FERNET_INSTANCE :: "fernet option"
  db :: database

section \<open>\<open>utils.py\<close>: key handling and the field cipher\<close>

text \<open>
  \<open>_load_fernet_key\<close>, \<open>get_fernet\<close>, \<open>encrypt_text\<close> and \<open>decrypt_text\<close>. A name cannot
  begin with an underscore here, so \<open>_load_fernet_key\<close>, \<open>_FERNET_INSTANCE\<close> and
  \<open>_get_connection\<close> lose theirs. An argument that may be \<open>None\<close> is an option.
\<close>

definition load_fernet_key :: "world \<Rightarrow> error + bytes" where
  "load_fernet_key w =
     (case environ_FERNET_KEY w of
        Some (c # cs) \<Rightarrow> encode_utf8 (c # cs)
      | _ \<Rightarrow>
        (case key_path w of
           Some f \<Rightarrow> Inr (content f)
         | None \<Rightarrow> Inl RuntimeError))"

definition get_fernet :: "world \<Rightarrow> error + (fernet \<times> world)" where
  "get_fernet w =
     (case FERNET_INSTANCE w of
        Some f \<Rightarrow> Inr (f, w)
      | None \<Rightarrow>
        (case load_fernet_key w of
           Inl e \<Rightarrow> Inl e
         | Inr key \<Rightarrow>
           (case Fernet key of
              Inl e \<Rightarrow> Inl e
            | Inr f \<Rightarrow> Inr (f, w\<lparr>FERNET_INSTANCE := Some f\<rparr>))))"

definition encrypt_text :: "str option \<Rightarrow> draw \<Rightarrow> world \<Rightarrow> error + (blob \<times> world)" where
  "encrypt_text plain d w =
     (case plain of
        None \<Rightarrow> Inl ValueError
      | Some p \<Rightarrow>
        (case get_fernet w of
           Inl e \<Rightarrow> Inl e
         | Inr (f, w') \<Rightarrow>
           (case encode_utf8 (strip p) of
              Inl e \<Rightarrow> Inl e
            | Inr m \<Rightarrow> Inr (fernet_encrypt f d m, w'))))"

definition decrypt_text :: "blob option \<Rightarrow> world \<Rightarrow> error + (str \<times> world)" where
  "decrypt_text cipher w =
     (case cipher of
        None \<Rightarrow> Inl ValueError
      | Some c \<Rightarrow>
        (case get_fernet w of
           Inl e \<Rightarrow> Inl e
         | Inr (f, w') \<Rightarrow>
           (case fernet_decrypt f c of
              Inl e \<Rightarrow> Inl e
            | Inr m \<Rightarrow>
              (case decode_utf8 m of
                 Inl e \<Rightarrow> Inl e
               | Inr s \<Rightarrow> Inr (s, w')))))"

section \<open>\<open>init_db.py\<close>: \<open>ensure_fernet_key\<close>\<close>





section \<open>Floating-point numbers and \<open>format(x, ".2f")\<close>\<close>

text \<open>
  A Python \<open>float\<close>: \<open>Finite neg m e\<close> is the number \<open>\<plusminus> m * 2 ^ e\<close> (every finite
  double has this form, and zero keeps its sign), besides the infinities and NaN.
\<close>

datatype pyfloat = Finite bool nat int | Infinite bool | NaN

text \<open>The quotient \<open>n / d\<close> rounded to the nearest integer, a tie to the even one.\<close>

definition round_half_even :: "nat \<Rightarrow> nat \<Rightarrow> nat" where
  "round_half_even n d =
     (if 2 * (n mod d) < d then n div d
      else if d < 2 * (n mod d) then n div d + 1
      else if even (n div d) then n div d
      else n div d + 1)"

text \<open>The magnitude \<open>m * 2 ^ e\<close> in hundredths, correctly rounded.\<close>

definition hundredths :: "nat \<Rightarrow> int \<Rightarrow> nat" where
  "hundredths m e =
     (if 0 \<le> e then m * 2 ^ nat e * 100 else round_half_even (m * 100) (2 ^ nat (- e)))"

text \<open>The decimal digits of a natural number, as \<open>str(n)\<close> writes them.\<close>

function digits :: "nat \<Rightarrow> str" where
  "digits n = (if n < 10 then [48 + n] else digits (n div 10) @ [48 + n mod 10])"
  by pat_completeness auto
termination
  by (relation "measure id") auto

declare digits.simps [simp del]

text \<open>The format \<open>f"{x:.2f}"\<close>.\<close>

definition format_2f :: "pyfloat \<Rightarrow> str" where
  "format_2f x =
     (case x of
        NaN \<Rightarrow> py ''nan''
      | Infinite neg \<Rightarrow> (if neg then py ''-inf'' else py ''inf'')
      | Finite neg m e \<Rightarrow>
          (if neg then [45] else []) @ digits (hundredths m e div 100) @
          [46, 48 + hundredths m e mod 100 div 10, 48 + hundredths m e mod 10])"

section \<open>\<open>models.py\<close>: the record store\<close>

text \<open>
  A connection of \<open>sqlite3\<close>. SQLite enforces foreign keys only on a connection that has
  executed \<open>PRAGMA foreign_keys = ON\<close>; a new connection starts with enforcement off.
  \<open>_get_connection\<close> opens a connection and does not execute the pragma
  (\<open>initialize_database\<close> of \<open>init_db.py\<close> does, on its own connection).
\<close>

record connection =
  foreign_keys :: bool

definition get_connection :: connection where
  "get_connection = \<lparr>foreign_keys = False\<rparr>"

text \<open>
  The id \<open>AUTOINCREMENT\<close> gives a new row: one more than the largest id the table holds
  or has ever held.
\<close>

definition next_rowid :: "database \<Rightarrow> int" where
  "next_rowid d = fold max (map pr_id (EmpPayRaise d)) (seq_EmpPayRaise d) + 1"

text \<open>
  \<open>INSERT INTO EmpPayRaise (...) VALUES (?, ?, ?, ?, ?)\<close> followed by \<open>commit\<close>. The
  foreign keys that the schema declares are checked when the connection enforces them.
\<close>

definition insert_payraise ::
  "connection \<Rightarrow> int \<Rightarrow> int \<Rightarrow> blob \<Rightarrow> blob \<Rightarrow> blob option \<Rightarrow> database \<Rightarrow> error + (int \<times> database)"
where
  "insert_payraise conn emp_id user_id enc_date enc_amt enc_comments d =
     (if foreign_keys conn \<and>
         (emp_id \<notin> set (map e_id (Employees d)) \<or> user_id \<notin> set (map u_id (Users d)))
      then Inl IntegrityError
      else Inr (next_rowid d,
                d\<lparr>EmpPayRaise := EmpPayRaise d @
                     [\<lparr>pr_id = next_rowid d, pr_emp_id = emp_id, pr_user_id = user_id,
                       payraise_date_encrypted = enc_date, raiseamt_encrypted = enc_amt,
                       comments_encrypted = enc_comments\<rparr>],
                   seq_EmpPayRaise := next_rowid d\<rparr>))"

text \<open>
  \<open>create_payraise\<close>. The three draws are those of the up to three calls of
  \<open>encrypt_text\<close>. \<open>float(raise_amt)\<close> is the identity on a float.
\<close>

definition create_payraise ::
  "int \<Rightarrow> int \<Rightarrow> str \<Rightarrow> pyfloat \<Rightarrow> str option \<Rightarrow> draw \<times> draw \<times> draw \<Rightarrow> world
     \<Rightarrow> error + (int \<times> world)"
where
  "create_payraise user_id emp_id date_str raise_amt comments_arg ds w =
     (case encrypt_text (Some (strip date_str)) (fst ds) w of
        Inl e \<Rightarrow> Inl e
      | Inr (encrypted_date, w1) \<Rightarrow>
        (case encrypt_text (Some (format_2f raise_amt)) (fst (snd ds)) w1 of
           Inl e \<Rightarrow> Inl e
         | Inr (encrypted_amt, w2) \<Rightarrow>
           (case (case comments_arg of
                    Some (c # cs) \<Rightarrow>
                      (case encrypt_text (Some (strip (c # cs))) (snd (snd ds)) w2 of
                         Inl e \<Rightarrow> Inl e
                       | Inr (b, w3) \<Rightarrow> Inr (Some b, w3))
                  | _ \<Rightarrow> Inr (None, w2)) of
              Inl e \<Rightarrow> Inl e
            | Inr (encrypted_comments, w3) \<Rightarrow>
              (case insert_payraise get_connection emp_id user_id encrypted_date encrypted_amt
                      encrypted_comments (db w3) of
                 Inl e \<Rightarrow> Inl e
               | Inr (rowid, d) \<Rightarrow> Inr (rowid, w3\<lparr>db := d\<rparr>)))))"

subsection \<open>The two listing queries\<close>

text \<open>\<open>ORDER BY pr.id DESC\<close>.\<close>

definition order_by_id_desc :: "payraise_row list \<Rightarrow> payraise_row list" where
  "order_by_id_desc rows = rev (sort_key pr_id rows)"

text \<open>\<open>JOIN Employees e ON e.id = pr.emp_id\<close>: a pay raise without its employee drops out.\<close>

definition join_employees ::
  "database \<Rightarrow> payraise_row list \<Rightarrow> (payraise_row \<times> employee_row) list" where
  "join_employees d rows =
     concat (map (\<lambda>pr. map (Pair pr) (filter (\<lambda>e. e_id e = pr_emp_id pr) (Employees d))) rows)"

definition select_payraises_for_user ::
  "int \<Rightarrow> database \<Rightarrow> (payraise_row \<times> employee_row) list" where
  "select_payraises_for_user user_id d =
     join_employees d (order_by_id_desc (filter (\<lambda>pr. pr_user_id pr = user_id) (EmpPayRaise d)))"

definition select_all_payraises :: "database \<Rightarrow> (payraise_row \<times> employee_row) list" where
  "select_all_payraises d = join_employees d (order_by_id_desc (EmpPayRaise d))"

text \<open>The dictionaries the two functions build.\<close>

record payraise_entry =
  employee_name :: str
  payraise_date :: str
  raise_amount :: str
  comments :: str

record all_payraise_entry = payraise_entry +
  row_id :: int
  row_user_id :: int

text \<open>
  The three calls of \<open>decrypt_text\<close> on one row, in the order of the dictionary display;
  the comment is decrypted only when the column is neither \<open>NULL\<close> nor empty.
\<close>

definition decrypt_fields :: "payraise_row \<Rightarrow> world \<Rightarrow> error + ((str \<times> str \<times> str) \<times> world)" where
  "decrypt_fields pr w =
     (case decrypt_text (Some (payraise_date_encrypted pr)) w of
        Inl e \<Rightarrow> Inl e
      | Inr (date, w1) \<Rightarrow>
        (case decrypt_text (Some (raiseamt_encrypted pr)) w1 of
           Inl e \<Rightarrow> Inl e
         | Inr (amt, w2) \<Rightarrow>
           (case (case comments_encrypted pr of
                    Some c \<Rightarrow> if blob_truthy c then decrypt_text (Some c) w2 else Inr ([], w2)
                  | None \<Rightarrow> Inr ([], w2)) of
              Inl e \<Rightarrow> Inl e
            | Inr (com, w3) \<Rightarrow> Inr ((date, amt, com), w3))))"

text \<open>The loop \<open>for row in cur.fetchall()\<close> of \<open>get_payraises_for_user\<close>.\<close>

fun decrypt_user_rows ::
  "(payraise_row \<times> employee_row) list \<Rightarrow> world \<Rightarrow> error + (payraise_entry list \<times> world)" where
  "decrypt_user_rows [] w = Inr ([], w)"
| "decrypt_user_rows (row # rows) w =
     (case decrypt_fields (fst row) w of
        Inl e \<Rightarrow> Inl e
      | Inr ((date, amt, com), w1) \<Rightarrow>
        (case decrypt_user_rows rows w1 of
           Inl e \<Rightarrow> Inl e
         | Inr (results, w2) \<Rightarrow>
             Inr (\<lparr>employee_name = e_name (snd row), payraise_date = date,
                   raise_amount = amt, comments = com\<rparr> # results, w2)))"

definition get_payraises_for_user :: "int \<Rightarrow> world \<Rightarrow> error + (payraise_entry list \<times> world)" where
  "get_payraises_for_user user_id w =
     decrypt_user_rows (select_payraises_for_user user_id (db w)) w"

text \<open>The loop of \<open>get_all_payraises\<close>.\<close>

fun decrypt_all_rows ::
  "(payraise_row \<times> employee_row) list \<Rightarrow> world \<Rightarrow> error + (all_payraise_entry list \<times> world)" where
  "decrypt_all_rows [] w = Inr ([], w)"
| "decrypt_all_rows (row # rows) w =
     (case decrypt_fields (fst row) w of
        Inl e \<Rightarrow> Inl e
      | Inr ((date, amt, com), w1) \<Rightarrow>
        (case decrypt_all_rows rows w1 of
           Inl e \<Rightarrow> Inl e
         | Inr (results, w2) \<Rightarrow>
             Inr (\<lparr>employee_name = e_name (snd row), payraise_date = date,
                   raise_amount = amt, comments = com,
                   row_id = pr_id (fst row), row_user_id = pr_user_id (fst row)\<rparr> # results, w2)))"

definition get_all_payraises :: "world \<Rightarrow> error + (all_payraise_entry list \<times> world)" where
  "get_all_payraises w = decrypt_all_rows (select_all_payraises (db w)) w"

section \<open>Python's conversions of text to numbers and dates\<close>

subsection \<open>Decimal digits\<close>

text \<open>
  The digit zero of every decimal digit block of Unicode (version 14, that of
  Python 3.11); the nine code points after each are its digits one to nine. These are
  the characters that \<open>\d\<close> matches in a \<open>str\<close> pattern and that \<open>int\<close> and \<open>float\<close>
  read as digits.
\<close>

definition decimal_zeros :: "nat list" where
  "decimal_zeros =
     [48, 1632, 1776, 1984, 2406, 2534, 2662, 2790, 2918, 3046, 3174, 3302, 3430, 3558,
      3664, 3792, 3872, 4160, 4240, 6112, 6160, 6470, 6608, 6784, 6800, 6992, 7088, 7232,
      7248, 42528, 43216, 43264, 43472, 43504, 43600, 44016, 65296, 66720, 68912, 69734,
      69872, 69942, 70096, 70384, 70736, 70864, 71248, 71360, 71472, 71904, 72016, 72784,
      73040, 73120, 92768, 92864, 93008, 120782, 120792, 120802, 120812, 120822, 123200,
      123632, 125264, 130032]"

definition decimal_value :: "nat \<Rightarrow> nat option" where
  "decimal_value c =
     (case filter (\<lambda>z. z \<le> c \<and> c < z + 10) decimal_zeros of
        [] \<Rightarrow> None
      | z # zs \<Rightarrow> Some (c - z))"

definition is_digit :: "nat \<Rightarrow> bool" where
  "is_digit c \<longleftrightarrow> 48 \<le> c \<and> c \<le> 57"

definition nat_of_digits :: "str \<Rightarrow> nat" where
  "nat_of_digits ds = foldl (\<lambda>n c. 10 * n + (c - 48)) 0 ds"

subsection \<open>What \<open>int(s)\<close> and \<open>float(s)\<close> do before parsing\<close>

text \<open>
  Non-ASCII whitespace becomes a blank, a non-ASCII decimal digit its ASCII digit, and
  any other non-ASCII character \<open>?\<close>, which no number contains.
\<close>

definition to_ascii :: "str \<Rightarrow> str" where
  "to_ascii s =
     map (\<lambda>c. if c < 127 then c
              else if isspace c then 32
              else (case decimal_value c of Some d \<Rightarrow> 48 + d | None \<Rightarrow> 63)) s"

text \<open>The whitespace of the C locale, which is what is stripped afterwards.\<close>

definition ascii_space :: "nat \<Rightarrow> bool" where
  "ascii_space c \<longleftrightarrow> c = 32 \<or> (9 \<le> c \<and> c \<le> 13)"

definition strip_ascii :: "str \<Rightarrow> str" where
  "strip_ascii s = rev (dropWhile ascii_space (rev (dropWhile ascii_space s)))"

text \<open>An underscore is allowed only between two digits; \<open>prev\<close> is the character before.\<close>

fun underscores_ok :: "nat \<Rightarrow> str \<Rightarrow> bool" where
  "underscores_ok prev [] = (prev \<noteq> 95)"
| "underscores_ok prev (c # cs) =
     (if c = 95 then is_digit prev \<and> underscores_ok c cs
      else (prev = 95 \<longrightarrow> is_digit c) \<and> underscores_ok c cs)"

definition split_sign :: "str \<Rightarrow> bool \<times> str" where
  "split_sign s =
     (case s of
        c # cs \<Rightarrow> if c = 45 then (True, cs) else if c = 43 then (False, cs) else (False, s)
      | [] \<Rightarrow> (False, s))"

subsection \<open>\<open>int(s)\<close>\<close>

definition int_of_str :: "str \<Rightarrow> error + int" where
  "int_of_str s =
     (let t = strip_ascii (to_ascii s);
          body = filter (\<lambda>c. c \<noteq> 95) (snd (split_sign t))
      in if \<not> underscores_ok 0 t \<or> body = [] \<or> \<not> list_all is_digit body then Inl ValueError
         else if fst (split_sign t) then Inr (- int (nat_of_digits body))
         else Inr (int (nat_of_digits body)))"

subsection \<open>\<open>float(s)\<close>\<close>

text \<open>
  The mantissa digits and the decimal exponent of
  \<open>digits [. digits] [e [sign] digits]\<close> or \<open>. digits [e [sign] digits]\<close>;
  \<open>None\<close> when the text is not of this form to its end.
\<close>

definition parse_exponent :: "str \<Rightarrow> int option" where
  "parse_exponent s =
     (case s of
        [] \<Rightarrow> Some 0
      | c # cs \<Rightarrow>
          if c = 101 \<or> c = 69 then
            (if snd (split_sign cs) \<noteq> [] \<and> list_all is_digit (snd (split_sign cs))
             then Some (if fst (split_sign cs) then - int (nat_of_digits (snd (split_sign cs)))
                        else int (nat_of_digits (snd (split_sign cs))))
             else None)
          else None)"

definition parse_decimal :: "str \<Rightarrow> (nat \<times> int) option" where
  "parse_decimal s =
     (let ip = takeWhile is_digit s;
          r1 = dropWhile is_digit s;
          fp = (case r1 of c # cs \<Rightarrow> if c = 46 then takeWhile is_digit cs else [] | [] \<Rightarrow> []);
          r2 = (case r1 of c # cs \<Rightarrow> if c = 46 then dropWhile is_digit cs else r1 | [] \<Rightarrow> [])
      in if ip = [] \<and> fp = [] then None
         else (case parse_exponent r2 of
                 None \<Rightarrow> None
               | Some e \<Rightarrow> Some (nat_of_digits (ip @ fp), e - int (length fp))))"

text \<open>The length of a natural number in bits, \<open>int.bit_length\<close>.\<close>

function bit_length :: "nat \<Rightarrow> nat" where
  "bit_length n = (if n = 0 then 0 else bit_length (n div 2) + 1)"
  by pat_completeness auto
termination
  by (relation "measure id") auto

declare bit_length.simps [simp del]

text \<open>
  The double nearest to \<open>num / den\<close> (both positive), a tie to the even mantissa:
  \<open>e2\<close> is the binary exponent of the quotient, \<open>p\<close> the weight of the last mantissa
  bit (53 bits, or fewer in the subnormal range); a result of \<open>2 ^ 1024\<close> or more is
  infinite.
\<close>

definition nearest_double :: "bool \<Rightarrow> nat \<Rightarrow> nat \<Rightarrow> pyfloat" where
  "nearest_double neg num den =
     (let k = int (bit_length num) - int (bit_length den);
          e2 = (if (if 0 \<le> k then den * 2 ^ nat k \<le> num else den \<le> num * 2 ^ nat (- k))
                then k else k - 1);
          p = max (e2 - 52) (- 1074);
          m = (if 0 \<le> p then round_half_even num (den * 2 ^ nat p)
               else round_half_even (num * 2 ^ nat (- p)) den)
      in if 1023 < e2 \<or> (m = 2 ^ 53 \<and> p = 971) then Infinite neg else Finite neg m p)"

definition float_of_decimal :: "bool \<Rightarrow> nat \<Rightarrow> int \<Rightarrow> pyfloat" where
  "float_of_decimal neg n e =
     (if n = 0 then Finite neg 0 0
      else if 0 \<le> e then nearest_double neg (n * 10 ^ nat e) 1
      else nearest_double neg n (10 ^ nat (- e)))"

definition lower :: "nat \<Rightarrow> nat" where
  "lower c = (if 65 \<le> c \<and> c \<le> 90 then c + 32 else c)"

definition float_of_str :: "str \<Rightarrow> error + pyfloat" where
  "float_of_str s =
     (let t = strip_ascii (to_ascii s);
          neg = fst (split_sign t);
          body = filter (\<lambda>c. c \<noteq> 95) (snd (split_sign t))
      in if \<not> underscores_ok 0 t then Inl ValueError
         else if map lower body = py ''inf'' \<or> map lower body = py ''infinity''
           then Inr (Infinite neg)
         else if map lower body = py ''nan'' then Inr NaN
         else (case parse_decimal body of
                 None \<Rightarrow> Inl ValueError
               | Some (n, e) \<Rightarrow> Inr (float_of_decimal neg n e)))"

text \<open>The comparison \<open>x > 0\<close> on floats.\<close>

fun float_positive :: "pyfloat \<Rightarrow> bool" where
  "float_positive (Finite neg m e) = (\<not> neg \<and> 0 < m)"
| "float_positive (Infinite neg) = (\<not> neg)"
| "float_positive NaN = False"

subsection \<open>\<open>datetime.strptime(s, "%Y-%m-%d")\<close>\<close>

text \<open>
  The format compiles to the regular expression
  \<open>(\d\d\d\d)-(1[0-2]|0[1-9]|[1-9])-(3[0-1]|[1-2]\d|0[1-9]|[1-9]| [1-9])\<close>.
  Each function returns the ways its group can match a prefix, in the order the
  alternatives are tried, with the number read and the text left over.
\<close>

definition match_year :: "str \<Rightarrow> (nat \<times> str) list" where
  "match_year s =
     (case s of
        a # b # c # d # rest \<Rightarrow>
          (case (decimal_value a, decimal_value b, decimal_value c, decimal_value d) of
             (Some x, Some y, Some z, Some u) \<Rightarrow> [(1000 * x + 100 * y + 10 * z + u, rest)]
           | _ \<Rightarrow> [])
      | _ \<Rightarrow> [])"

definition match_month :: "str \<Rightarrow> (nat \<times> str) list" where
  "match_month s =
     (case s of
        a # b # rest \<Rightarrow>
          (if a = 49 \<and> 48 \<le> b \<and> b \<le> 50 then [(10 + (b - 48), rest)] else []) @
          (if a = 48 \<and> 49 \<le> b \<and> b \<le> 57 then [(b - 48, rest)] else []) @
          (if 49 \<le> a \<and> a \<le> 57 then [(a - 48, b # rest)] else [])
      | [a] \<Rightarrow> (if 49 \<le> a \<and> a \<le> 57 then [(a - 48, [])] else [])
      | [] \<Rightarrow> [])"

definition match_day :: "str \<Rightarrow> (nat \<times> str) list" where
  "match_day s =
     (case s of
        a # b # rest \<Rightarrow>
          (if a = 51 \<and> 48 \<le> b \<and> b \<le> 49 then [(30 + (b - 48), rest)] else []) @
          (case decimal_value b of
             Some y \<Rightarrow> if 49 \<le> a \<and> a \<le> 50 then [(10 * (a - 48) + y, rest)] else []
           | None \<Rightarrow> []) @
          (if a = 48 \<and> 49 \<le> b \<and> b \<le> 57 then [(b - 48, rest)] else []) @
          (if 49 \<le> a \<and> a \<le> 57 then [(a - 48, b # rest)] else []) @
          (if a = 32 \<and> 49 \<le> b \<and> b \<le> 57 then [(b - 48, rest)] else [])
      | [a] \<Rightarrow> (if 49 \<le> a \<and> a \<le> 57 then [(a - 48, [])] else [])
      | [] \<Rightarrow> [])"

text \<open>A literal \<open>-\<close> of the pattern.\<close>

definition match_dash :: "str \<Rightarrow> str list" where
  "match_dash s = (case s of c # cs \<Rightarrow> if c = 45 then [cs] else [] | [] \<Rightarrow> [])"

text \<open>
  All matches of the whole pattern at the start of the text, in the order in which
  backtracking finds them; \<open>re.match\<close> returns the first.
\<close>

definition match_ymd :: "str \<Rightarrow> ((nat \<times> nat \<times> nat) \<times> str) list" where
  "match_ymd s =
     concat (map (\<lambda>(y, r1).
       concat (map (\<lambda>r2.
         concat (map (\<lambda>(m, r3).
           concat (map (\<lambda>r4.
             map (\<lambda>(d, r5). ((y, m, d), r5)) (match_day r4))
           (match_dash r3)))
         (match_month r2)))
       (match_dash r1)))
     (match_year s))"

definition is_leap :: "nat \<Rightarrow> bool" where
  "is_leap y \<longleftrightarrow> y mod 4 = 0 \<and> (y mod 100 \<noteq> 0 \<or> y mod 400 = 0)"

definition days_in_month :: "nat \<Rightarrow> nat \<Rightarrow> nat" where
  "days_in_month y m =
     (if m = 2 then (if is_leap y then 29 else 28)
      else if m = 4 \<or> m = 6 \<or> m = 9 \<or> m = 11 then 30 else 31)"

text \<open>
  \<open>strptime\<close> raises \<open>ValueError\<close> when the pattern does not match, when text remains
  after the match, and when the numbers are not a date of the calendar (years start
  at 1).
\<close>

definition strptime_ymd :: "str \<Rightarrow> error + (nat \<times> nat \<times> nat)" where
  "strptime_ymd s =
     (case match_ymd s of
        [] \<Rightarrow> Inl ValueError
      | ((y, m, d), rest) # others \<Rightarrow>
          if rest \<noteq> [] then Inl ValueError
          else if y < 1 \<or> d < 1 \<or> days_in_month y m < d then Inl ValueError
          else Inr (y, m, d))"

section \<open>\<open>utils.py\<close>: the validators\<close>

definition is_valid_date :: "str \<Rightarrow> bool" where
  "is_valid_date date_str =
     (if date_str = [] \<or> strip date_str = [] then False
      else (case strptime_ymd (strip date_str) of Inl e \<Rightarrow> False | Inr d \<Rightarrow> True))"

definition is_positive_number :: "str \<Rightarrow> bool" where
  "is_positive_number v =
     (if v = [] \<or> strip v = [] then False
      else (case float_of_str v of Inl e \<Rightarrow> False | Inr x \<Rightarrow> float_positive x))"

section \<open>\<open>models.py\<close>: \<open>create_employee\<close>\<close>

definition create_employee :: "str \<Rightarrow> str \<Rightarrow> str \<Rightarrow> int \<Rightarrow> world \<Rightarrow> int \<times> world" where
  "create_employee name email department security_level w =
     (let rowid = fold max (map e_id (Employees (db w))) (seq_Employees (db w)) + 1
      in (rowid,
          w\<lparr>db := (db w)\<lparr>Employees := Employees (db w) @
                 [\<lparr>e_id = rowid, e_name = name, e_email = Some email,
                   e_department = Some department, e_security_level = Some security_level\<rparr>],
               seq_Employees := rowid\<rparr>\<rparr>))"

section \<open>\<open>forms.py\<close>\<close>

text \<open>\<open>(data.get(key) or "").strip()\<close>.\<close>

definition field :: "(string \<rightharpoonup> str) \<Rightarrow> string \<Rightarrow> str" where
  "field data key = strip (case data key of None \<Rightarrow> [] | Some v \<Rightarrow> v)"

record PayRaiseForm =
  form_payraise_date :: str
  form_raise_amount :: str
  form_comments :: str
  form_errors :: "str list"

definition PayRaiseForm_from_mapping :: "(string \<rightharpoonup> str) \<Rightarrow> PayRaiseForm" where
  "PayRaiseForm_from_mapping data =
     \<lparr>form_payraise_date = field data ''payraise_date'',
      form_raise_amount = field data ''raise_amount'',
      form_comments = field data ''comments'',
      form_errors =
        (if \<not> is_valid_date (field data ''payraise_date'')
         then [py ''PayRaiseDate must be a valid date (YYYY-MM-DD).''] else []) @
        (if \<not> is_positive_number (field data ''raise_amount'')
         then [py ''RaiseAmt must be a positive number.''] else [])\<rparr>"

record EmployeeForm =
  ef_name :: str
  ef_email :: str
  ef_department :: str
  ef_security_level :: "int option"
  ef_errors :: "str list"

definition EmployeeForm_from_mapping :: "(string \<rightharpoonup> str) \<Rightarrow> EmployeeForm" where
  "EmployeeForm_from_mapping data =
     \<lparr>ef_name = field data ''name'',
      ef_email = field data ''email'',
      ef_department = field data ''department'',
      ef_security_level =
        (if field data ''security_level'' \<noteq> [] then
           (case int_of_str (field data ''security_level'') of
              Inl e \<Rightarrow> None
            | Inr n \<Rightarrow> Some n)
         else None),
      ef_errors =
        (if field data ''name'' = [] then [py ''Employee name is required.''] else []) @
        (if field data ''security_level'' \<noteq> [] then
           (case int_of_str (field data ''security_level'') of
              Inl e \<Rightarrow> [py ''Security level must be a number.'']
            | Inr n \<Rightarrow>
                if n \<noteq> 1 \<and> n \<noteq> 2 \<and> n \<noteq> 3 then [py ''Security level must be 1, 2, or 3.'']
                else [])
         else [py ''Security level is required.'']) @
        (if field data ''department'' = [] then [py ''Department is required.''] else [])\<rparr>"

section \<open>\<open>app.py\<close>: guards and routes\<close>

text \<open>
  The session after login carries the user's id, security level and employee link; a
  key that is absent and a stored \<open>None\<close> both read as \<open>None\<close>.
\<close>

record session =
  sess_user_id :: "int option"
  sess_security_level :: "int option"
  sess_emp_id :: "int option"

record request =
  req_method :: string
  req_form :: "string \<rightharpoonup> str"

text \<open>
  A response is a redirect to an endpoint or a rendered template with its status. A view
  returns the response, the messages it flashed and the new state, or raises.
\<close>

datatype response = Redirect string | Render string nat

type_synonym result = "error + (response \<times> str list \<times> world)"

type_synonym view = "request \<Rightarrow> session \<Rightarrow> world \<Rightarrow> result"

definition login_required :: "view \<Rightarrow> view" where
  "login_required view req sess w =
     (if sess_user_id sess = None
      then Inr (Redirect ''login'', [py ''Please log in to continue.''], w)
      else view req sess w)"

definition requires_security_level :: "int \<Rightarrow> view \<Rightarrow> view" where
  "requires_security_level min_level view req sess w =
     (case sess_security_level sess of
        None \<Rightarrow> Inr (Render ''error.html'' 404, [py ''Page not found''], w)
      | Some security_level \<Rightarrow>
          if security_level < min_level
          then Inr (Render ''error.html'' 404, [py ''Page not found''], w)
          else view req sess w)"

text \<open>The form data a view reads: \<open>request.form\<close> on a POST, nothing otherwise.\<close>

definition posted :: "request \<Rightarrow> (string \<rightharpoonup> str)" where
  "posted req = (if req_method req = ''POST'' then req_form req else Map.empty)"

definition add_payraise_view :: "draw \<times> draw \<times> draw \<Rightarrow> view" where
  "add_payraise_view ds req sess w =
     (if req_method req = ''POST'' then
        (if form_errors (PayRaiseForm_from_mapping (posted req)) \<noteq> [] then
           Inr (Redirect ''result'',
                form_errors (PayRaiseForm_from_mapping (posted req)) @
                  [py ''Record not added due to input errors.''], w)
         else
           (case sess_emp_id sess of
              None \<Rightarrow> Inr (Render ''error.html'' 404, [py ''Page not found''], w)
            | Some emp_id \<Rightarrow>
              (case sess_user_id sess of
                 None \<Rightarrow> Inl KeyError
               | Some user_id \<Rightarrow>
                 (case float_of_str (form_raise_amount (PayRaiseForm_from_mapping (posted req))) of
                    Inl e \<Rightarrow> Inl e
                  | Inr raise_amt \<Rightarrow>
                    (case create_payraise user_id emp_id
                            (form_payraise_date (PayRaiseForm_from_mapping (posted req)))
                            raise_amt
                            (if form_comments (PayRaiseForm_from_mapping (posted req)) \<noteq> []
                             then Some (form_comments (PayRaiseForm_from_mapping (posted req)))
                             else None)
                            ds w of
                       Inl e \<Rightarrow> Inl e
                     | Inr (rowid, w') \<Rightarrow> Inr (Redirect ''result'', [py ''Record added''], w'))))))
      else Inr (Render ''add_payraise.html'' 200, [], w))"

definition add_payraise :: "draw \<times> draw \<times> draw \<Rightarrow> view" where
  "add_payraise ds = login_required (add_payraise_view ds)"

definition add_employee_view :: view where
  "add_employee_view req sess w =
     (if req_method req = ''POST'' then
        (if ef_errors (EmployeeForm_from_mapping (posted req)) \<noteq> [] then
           Inr (Redirect ''result'',
                ef_errors (EmployeeForm_from_mapping (posted req)) @
                  [py ''Employee not added due to input errors.''], w)
         else
           Inr (Redirect ''result'', [py ''Employee added successfully.''],
                snd (create_employee
                       (ef_name (EmployeeForm_from_mapping (posted req)))
                       (ef_email (EmployeeForm_from_mapping (posted req)))
                       (ef_department (EmployeeForm_from_mapping (posted req)))
                       (case ef_security_level (EmployeeForm_from_mapping (posted req)) of
                          None \<Rightarrow> 3
                        | Some n \<Rightarrow> if n = 0 then 3 else n)
                       w)))
      else Inr (Render ''add_employee.html'' 200, [], w))"

definition add_employee :: view where
  "add_employee = login_required (requires_security_level 1 add_employee_view)"

text \<open>
  The two listing views. What the templates show is not part of a response here, so
  \<open>get_employees\<close>, which only reads, and the display loop of \<open>list_payraises\<close>, which
  catches its own exceptions, leave no trace; \<open>get_all_payraises\<close> may raise.
\<close>

definition list_employees_view :: view where
  "list_employees_view req sess w =
     (if sess_security_level sess \<noteq> Some 1 \<and> sess_security_level sess \<noteq> Some 2
      then Inr (Render ''error.html'' 404, [py ''Page not found''], w)
      else Inr (Render ''list_employees.html'' 200, [], w))"

definition list_employees :: view where
  "list_employees = login_required (requires_security_level 1 list_employees_view)"

definition list_payraises_view :: view where
  "list_payraises_view req sess w =
     (if sess_security_level sess \<noteq> Some 2
      then Inr (Render ''error.html'' 404, [py ''Page not found''], w)
      else (case get_all_payraises w of
              Inl e \<Rightarrow> Inl e
            | Inr (payraises, w') \<Rightarrow> Inr (Render ''list_payraises.html'' 200, [], w')))"

definition list_payraises :: view where
  "list_payraises = login_required (requires_security_level 2 list_payraises_view)"

section \<open>Auxiliary notions for the statements\<close>

text \<open>
  \<open>fernet.decrypt(cipher).decode("utf-8")\<close>, the last line of \<open>decrypt_text\<close>, for a
  given Fernet object.
\<close>

definition open_field :: "fernet \<Rightarrow> blob \<Rightarrow> error + str" where
  "open_field f c =
     (case fernet_decrypt f c of Inl e \<Rightarrow> Inl e | Inr m \<Rightarrow> decode_utf8 m)"

text \<open>The three fields of a row, opened in the order \<open>decrypt_fields\<close> opens them.\<close>

definition open_fields :: "fernet \<Rightarrow> payraise_row \<Rightarrow> error + (str \<times> str \<times> str)" where
  "open_fields f pr =
     (case open_field f (payraise_date_encrypted pr) of
        Inl e \<Rightarrow> Inl e
      | Inr date \<Rightarrow>
        (case open_field f (raiseamt_encrypted pr) of
           Inl e \<Rightarrow> Inl e
         | Inr amt \<Rightarrow>
           (case (case comments_encrypted pr of
                    Some c \<Rightarrow> if blob_truthy c then open_field f c else Inr []
                  | None \<Rightarrow> Inr []) of
              Inl e \<Rightarrow> Inl e
            | Inr com \<Rightarrow> Inr (date, amt, com))))"

text \<open>A row all of whose sensitive fields decrypt under \<open>f\<close>.\<close>

definition row_opens :: "fernet \<Rightarrow> payraise_row \<Rightarrow> bool" where
  "row_opens f pr = (case open_fields f pr of Inl e \<Rightarrow> False | Inr x \<Rightarrow> True)"

section \<open>Example states\<close>

text \<open>
  The state that \<open>init_db.py\<close> leaves behind when it runs on an empty project directory
  and \<open>os.urandom(32)\<close> returns zeros (the random bytes of the tokens are
  abbreviated to one byte): the generated key in \<open>key.key\<close>, the three seeded
  employees and users, and the pay raise seeded for the administrator.
\<close>

definition demo_key :: bytes where
  "demo_key =
     [0, 0, 0, 0, 0, 0, 0, 0, 0, 0, 0, 0, 0, 0, 0, 0,
      0, 0, 0, 0, 0, 0, 0, 0, 0, 0, 0, 0, 0, 0, 0, 0]"

definition demo_key_text :: string where
  "demo_key_text = ''AAAAAAAAAAAAAAAAAAAAAAAAAAAAAAAAAAAAAAAAAAA=''"

definition demo_draw :: draw where
  "demo_draw = (1762560000, [7])"

definition seeded_db :: database where
  "seeded_db =
     \<lparr>Users =
        [\<lparr>u_id = 1, u_username = py ''admin1'', u_password_hash = py ''pbkdf2'',
          u_full_name = Some (py ''Alice Admin''), u_security_level = 1, u_emp_id = Some 1\<rparr>,
         \<lparr>u_id = 2, u_username = py ''manager'', u_password_hash = py ''pbkdf2'',
          u_full_name = Some (py ''Bob Manager''), u_security_level = 2, u_emp_id = Some 2\<rparr>,
         \<lparr>u_id = 3, u_username = py ''staff'', u_password_hash = py ''pbkdf2'',
          u_full_name = Some (py ''Cara Staff''), u_security_level = 3, u_emp_id = Some 3\<rparr>],
      Employees =
        [\<lparr>e_id = 1, e_name = py ''Alice Admin'', e_email = Some (py ''alice.admin@example.com''),
          e_department = Some (py ''Executive''), e_security_level = Some 1\<rparr>,
         \<lparr>e_id = 2, e_name = py ''Bob Manager'', e_email = Some (py ''bob.manager@example.com''),
          e_department = Some (py ''Operations''), e_security_level = Some 2\<rparr>,
         \<lparr>e_id = 3, e_name = py ''Cara Staff'', e_email = Some (py ''cara.staff@example.com''),
          e_department = Some (py ''Support''), e_security_level = Some 3\<rparr>],
      EmpPayRaise =
        [\<lparr>pr_id = 1, pr_emp_id = 1, pr_user_id = 1,
          payraise_date_encrypted = Token demo_key 1762560000 [1] (pyb ''2025-01-01''),
          raiseamt_encrypted = Token demo_key 1762560000 [2] (pyb ''1250.00''),
          comments_encrypted =
            Some (Token demo_key 1762560000 [3] (pyb ''Annual merit increase''))\<rparr>],
      seq_Employees = 3,
      seq_EmpPayRaise = 1\<rparr>"

definition seeded :: world where
  "seeded =
     \<lparr>environ_FERNET_KEY = None,
      key_path = Some \<lparr>content = pyb demo_key_text, mode = 384\<rparr>,
      root_writable = True,
      FERNET_INSTANCE = None,
      db = seeded_db\<rparr>"

text \<open>The same state once the key has been loaded.\<close>

definition seeded_loaded :: world where
  "seeded_loaded = seeded\<lparr>FERNET_INSTANCE := Some demo_key\<rparr>"

text \<open>
  The seeded state with a second pay raise of the administrator whose amount column
  holds bytes that are not a token.
\<close>

definition corrupted :: world where
  "corrupted =
     seeded\<lparr>db := seeded_db\<lparr>EmpPayRaise := EmpPayRaise seeded_db @
       [\<lparr>pr_id = 2, pr_emp_id = 1, pr_user_id = 1,
         payraise_date_encrypted = Token demo_key 1762560001 [4] (pyb ''2025-06-01''),
         raiseamt_encrypted = Raw (pyb ''garbage''),
         comments_encrypted = None\<rparr>],
       seq_EmpPayRaise := 2\<rparr>\<rparr>"


text \<open>Sessions of the three seeded users, and of a user without an employee.\<close>

definition admin_session :: session where
  "admin_session = \<lparr>sess_user_id = Some 1, sess_security_level = Some 1, sess_emp_id = Some 1\<rparr>"

definition manager_session :: session where
  "manager_session = \<lparr>sess_user_id = Some 2, sess_security_level = Some 2, sess_emp_id = Some 2\<rparr>"

definition staff_session :: session where
  "staff_session = \<lparr>sess_user_id = Some 3, sess_security_level = Some 3, sess_emp_id = Some 3\<rparr>"

definition unlinked_session :: session where
  "unlinked_session = \<lparr>sess_user_id = Some 4, sess_security_level = Some 3, sess_emp_id = None\<rparr>"

text \<open>A valid pay-raise submission and a valid employee submission.\<close>

definition payraise_post :: request where
  "payraise_post =
     \<lparr>req_method = ''POST'',
      req_form = [''payraise_date'' \<mapsto> py ''2025-01-01'', ''raise_amount'' \<mapsto> py ''12.5'',
                  ''comments'' \<mapsto> py ''Annual merit increase'']\<rparr>"

definition employee_post :: request where
  "employee_post =
     \<lparr>req_method = ''POST'',
      req_form = [''name'' \<mapsto> py ''Dan New'', ''email'' \<mapsto> py ''dan@example.com'',
                  ''department'' \<mapsto> py ''Support'', ''security_level'' \<mapsto> py ''1'']\<rparr>"

text \<open>
  The state after the administrator has added a pay raise of 12.5 without a comment to
  the seeded state, and the new row.
\<close>

definition second_row :: payraise_row where
  "second_row =
     \<lparr>pr_id = 2, pr_emp_id = 1, pr_user_id = 1,
      payraise_date_encrypted = Token demo_key 1762560000 [7] (pyb ''2025-06-01''),
      raiseamt_encrypted = Token demo_key 1762560000 [7] (pyb ''12.50''),
      comments_encrypted = None\<rparr>"

definition after_create :: world where
  "after_create =
     seeded_loaded\<lparr>db := seeded_db\<lparr>EmpPayRaise := EmpPayRaise seeded_db @ [second_row],
                                     seq_EmpPayRaise := 2\<rparr>\<rparr>"

text \<open>
  The state after a pay raise for the employee id 999, which no employee has, has been
  added to the seeded state, and that row.
\<close>

definition dangling_row :: payraise_row where
  "dangling_row =
     \<lparr>pr_id = 2, pr_emp_id = 999, pr_user_id = 1,
      payraise_date_encrypted = Token demo_key 1762560000 [7] (pyb ''2025-06-01''),
      raiseamt_encrypted = Token demo_key 1762560000 [7] (pyb ''12.50''),
      comments_encrypted = None\<rparr>"

definition after_dangling :: world where
  "after_dangling =
     seeded_loaded\<lparr>db := seeded_db\<lparr>EmpPayRaise := EmpPayRaise seeded_db @ [dangling_row],
                                     seq_EmpPayRaise := 2\<rparr>\<rparr>"

text \<open>The entries that the seeded row and the second row are listed as.\<close>

definition first_entry :: payraise_entry where
  "first_entry =
     \<lparr>employee_name = py ''Alice Admin'', payraise_date = py ''2025-01-01'',
      raise_amount = py ''1250.00'', comments = py ''Annual merit increase''\<rparr>"

definition second_entry :: payraise_entry where
  "second_entry =
     \<lparr>employee_name = py ''Alice Admin'', payraise_date = py ''2025-06-01'',
      raise_amount = py ''12.50'', comments = []\<rparr>"

text \<open>A GET request.\<close>

definition get_request :: request where
  "get_request = \<lparr>req_method = ''GET'', req_form = Map.empty\<rparr>"

text \<open>The employee row that \<open>employee_post\<close> asks for, with the next id.\<close>

definition new_employee :: employee_row where
  "new_employee =
     \<lparr>e_id = 4, e_name = py ''Dan New'', e_email = Some (py ''dan@example.com''),
      e_department = Some (py ''Support''), e_security_level = Some 1\<rparr>"

text \<open>The entries of \<open>get_all_payraises\<close> for the same two rows.\<close>

definition first_listed :: all_payraise_entry where
  "first_listed =
     \<lparr>employee_name = py ''Alice Admin'', payraise_date = py ''2025-01-01'',
      raise_amount = py ''1250.00'', comments = py ''Annual merit increase'',
      row_id = 1, row_user_id = 1\<rparr>"

definition second_listed :: all_payraise_entry where
  "second_listed =
     \<lparr>employee_name = py ''Alice Admin'', payraise_date = py ''2025-06-01'',
      raise_amount = py ''12.50'', comments = [], row_id = 2, row_user_id = 1\<rparr>"
section \<open>UTF-8 round trip\<close>


lemma split3: "(c::nat) div 4096 * 4096 + (c div 64) mod 64 * 64 + c mod 64 = c"
proof -
  have "c div 4096 = (c div 64) div 64" by (simp add: div_mult2_eq)
  then have "c div 4096 * 64 + (c div 64) mod 64 = c div 64" by simp
  then have "(c div 4096 * 64 + (c div 64) mod 64) * 64 + c mod 64 = c" by simp
  then show ?thesis by (simp add: add_mult_distrib)
qed

lemma split4:
  "(c::nat) div 262144 * 262144 + (c div 4096) mod 64 * 4096 + (c div 64) mod 64 * 64 + c mod 64 = c"
proof -
  have "c div 262144 = (c div 4096) div 64" by (simp add: div_mult2_eq)
  then have "c div 262144 * 64 + (c div 4096) mod 64 = c div 4096" by simp
  then have "(c div 262144 * 64 + (c div 4096) mod 64) * 4096 + (c div 64) mod 64 * 64 + c mod 64 = c"
    using split3 [of c] by simp
  then show ?thesis by (simp add: add_mult_distrib)
qed

lemma div_bounds:
  fixes c :: nat
  shows "c < 2048 \<Longrightarrow> c div 64 < 32" "128 \<le> c \<Longrightarrow> 2 \<le> c div 64"
    "c < 65536 \<Longrightarrow> c div 4096 < 16" "c < 1114112 \<Longrightarrow> c div 262144 < 5"
  by (simp_all add: less_mult_imp_div_less le_div_geq)

lemma unat_byte: "n < 256 \<Longrightarrow> unat (byte n) = n"
  by (simp add: byte_def unat_of_nat)

lemma decode1: "unat b0 < 128 \<Longrightarrow> decode_utf8 (b0 # rest) = cons_ok (unat b0) (decode_utf8 rest)"
  by simp

lemma decode2:
  assumes "unat b0 = 192 + h" "2 \<le> h" "h < 32" "unat b1 = 128 + l" "l < 64"
  shows "decode_utf8 (b0 # b1 # rest) = cons_ok (h * 64 + l) (decode_utf8 rest)"
  using assms by (simp add: cont_def)

lemma decode3:
  assumes "unat b0 = 224 + h" "h < 16" "unat b1 = 128 + m" "m < 64" "unat b2 = 128 + l" "l < 64"
    "2048 \<le> h * 4096 + m * 64 + l" "\<not> is_surrogate (h * 4096 + m * 64 + l)"
  shows "decode_utf8 (b0 # b1 # b2 # rest) = cons_ok (h * 4096 + m * 64 + l) (decode_utf8 rest)"
  using assms by (simp add: cont_def)

lemma decode4:
  assumes "unat b0 = 240 + h" "h < 5" "unat b1 = 128 + m" "m < 64" "unat b2 = 128 + k" "k < 64"
    "unat b3 = 128 + l" "l < 64"
    "65536 \<le> h * 262144 + m * 4096 + k * 64 + l" "h * 262144 + m * 4096 + k * 64 + l < 1114112"
  shows "decode_utf8 (b0 # b1 # b2 # b3 # rest) = cons_ok (h * 262144 + m * 4096 + k * 64 + l) (decode_utf8 rest)"
  using assms by (simp add: cont_def)

lemma decode_encode_char:
  assumes "encode_char c = Some bs"
  shows "decode_utf8 (bs @ rest) = cons_ok c (decode_utf8 rest)"
proof -
  consider (a) "c < 128" | (b) "128 \<le> c" "c < 2048" | (c) "2048 \<le> c" "c < 65536" "\<not> is_surrogate c"
    | (d) "65536 \<le> c" "c < 1114112"
    using assms by (auto simp: encode_char_def split: if_splits)
  then show ?thesis
  proof cases
    case a
    then have "bs = [byte c]" using assms by (simp add: encode_char_def)
    then show ?thesis using a decode1 [of "byte c" rest] by (simp add: unat_byte)
  next
    case b
    have bs: "bs = [byte (192 + c div 64), byte (128 + c mod 64)]"
      using assms b by (simp add: encode_char_def)
    have h: "2 \<le> c div 64" "c div 64 < 32" using b div_bounds by simp_all
    have u: "unat (byte (192 + c div 64)) = 192 + c div 64" "unat (byte (128 + c mod 64)) = 128 + c mod 64"
      using h by (simp_all add: unat_byte)
    show ?thesis
      unfolding bs using decode2 [OF u(1) h u(2), of rest] by simp
  next
    case c
    have bs: "bs = [byte (224 + c div 4096), byte (128 + (c div 64) mod 64), byte (128 + c mod 64)]"
      using assms c by (simp add: encode_char_def)
    have h: "c div 4096 < 16" using c div_bounds by simp
    have u: "unat (byte (224 + c div 4096)) = 224 + c div 4096"
      "unat (byte (128 + (c div 64) mod 64)) = 128 + (c div 64) mod 64"
      "unat (byte (128 + c mod 64)) = 128 + c mod 64"
      using h by (simp_all add: unat_byte)
    have m: "(c div 64) mod 64 < 64" "c mod 64 < 64" by simp_all
    show ?thesis
      unfolding bs using decode3 [OF u(1) h u(2) m(1) u(3) m(2), of rest] c
      by (simp add: split3)
  next
    case d
    have bs: "bs = [byte (240 + c div 262144), byte (128 + (c div 4096) mod 64),
                    byte (128 + (c div 64) mod 64), byte (128 + c mod 64)]"
      using assms d by (simp add: encode_char_def)
    have h: "c div 262144 < 5" using d div_bounds by simp
    have u: "unat (byte (240 + c div 262144)) = 240 + c div 262144"
      "unat (byte (128 + (c div 4096) mod 64)) = 128 + (c div 4096) mod 64"
      "unat (byte (128 + (c div 64) mod 64)) = 128 + (c div 64) mod 64"
      "unat (byte (128 + c mod 64)) = 128 + c mod 64"
      using h by (simp_all add: unat_byte)
    have m: "(c div 4096) mod 64 < 64" "(c div 64) mod 64 < 64" "c mod 64 < 64" by simp_all
    show ?thesis
      unfolding bs using decode4 [OF u(1) h u(2) m(1) u(3) m(2) u(4) m(3), of rest] d
      by (simp add: split4)
  qed
qed

lemma decode_encode_utf8: "encode_utf8 s = Inr bs \<Longrightarrow> decode_utf8 bs = Inr s"
proof (induction s arbitrary: bs)
  case Nil
  then show ?case by simp
next
  case (Cons c cs)
  then show ?case
    by (auto split: option.splits sum.splits simp: decode_encode_char cons_ok_def)
qed

lemma encode_char_valid:
  "c < 1114112 \<Longrightarrow> \<not> is_surrogate c \<Longrightarrow> \<exists>bs. encode_char c = Some bs"
  by (simp add: encode_char_def)

lemma encode_utf8_valid: "valid_str s \<Longrightarrow> \<exists>bs. encode_utf8 s = Inr bs"
proof (induction s)
  case Nil
  then show ?case by simp
next
  case (Cons c cs)
  then obtain bs where "encode_utf8 cs = Inr bs" by (auto simp: valid_str_def)
  moreover obtain b where "encode_char c = Some b"
    using Cons.prems encode_char_valid [of c] by (auto simp: valid_str_def)
  ultimately show ?case by simp
qed

section \<open>The field cipher\<close>

lemma valid_str_dropWhile: "valid_str s \<Longrightarrow> valid_str (dropWhile P s)"
  unfolding valid_str_def list_all_iff using set_dropWhileD by fast

lemma valid_str_rev: "valid_str (rev s) = valid_str s"
  by (simp add: valid_str_def list_all_iff)

lemma valid_str_strip: "valid_str s \<Longrightarrow> valid_str (strip s)"
  by (simp add: strip_def valid_str_rev valid_str_dropWhile)

lemma get_fernet_cached:
  assumes "get_fernet w = Inr (f, w')"
  shows "FERNET_INSTANCE w' = Some f"
  using assms by (auto simp: get_fernet_def split: option.splits sum.splits)

lemma get_fernet_again:
  assumes "get_fernet w = Inr (f, w')"
  shows "get_fernet w' = Inr (f, w')"
  using get_fernet_cached [OF assms] by (simp add: get_fernet_def)

lemma get_fernet_db:
  assumes "get_fernet w = Inr (f, w')"
  shows "db w' = db w"
  using assms by (auto simp: get_fernet_def split: option.splits sum.splits)

lemma encrypt_text_ok:
  assumes "get_fernet w = Inr (f, w')" "encode_utf8 (strip p) = Inr m"
  shows "encrypt_text (Some p) d w = Inr (Token f (fst d) (snd d) m, w')"
  using assms by (simp add: encrypt_text_def fernet_encrypt_def)

lemma decrypt_text_token:
  assumes "get_fernet w = Inr (f, w')" "decode_utf8 m = Inr s"
  shows "decrypt_text (Some (Token f t iv m)) w = Inr (s, w')"
  using assms by (simp add: decrypt_text_def)


section \<open>The listing loops\<close>

lemma decrypt_text_resolved:
  assumes "get_fernet w = Inr (f, w1)"
  shows "decrypt_text (Some c) w = (case open_field f c of Inl e \<Rightarrow> Inl e | Inr s \<Rightarrow> Inr (s, w1))"
  using assms by (simp add: decrypt_text_def open_field_def split: sum.splits)

lemma decrypt_fields_resolved:
  assumes "get_fernet w = Inr (f, w1)"
  shows "decrypt_fields pr w = (case open_fields f pr of Inl e \<Rightarrow> Inl e | Inr x \<Rightarrow> Inr (x, w1))"
  using assms get_fernet_again [OF assms]
  by (simp add: decrypt_fields_def open_fields_def decrypt_text_resolved
      split: sum.splits option.splits)

lemma cons_ok_error: "cons_ok c r = Inl e \<Longrightarrow> r = Inl e"
  by (simp add: cons_ok_def split: sum.splits)

lemma decode_utf8_error: "decode_utf8 bs = Inl e \<Longrightarrow> e = UnicodeDecodeError"
proof (induction bs arbitrary: e rule: decode_utf8.induct)
  case 1
  then show ?case by simp
next
  case (2 b0 bs)
  show ?case
  proof (cases "unat b0 < 128")
    case True
    then show ?thesis using 2 by (auto dest!: cons_ok_error)
  next
    case a: False
    show ?thesis
    proof (cases "194 \<le> unat b0 \<and> unat b0 < 224")
      case True
      then show ?thesis using a 2(2)[OF a True] 2(5)
        by (auto split: list.splits if_splits dest!: cons_ok_error)
    next
      case b: False
      show ?thesis
      proof (cases "224 \<le> unat b0 \<and> unat b0 < 240")
        case True
        then show ?thesis using a b 2(3)[OF a b True] 2(5)
          by (auto split: list.splits if_splits dest!: cons_ok_error)
      next
        case c: False
        show ?thesis
        proof (cases "240 \<le> unat b0 \<and> unat b0 < 245")
          case True
          then show ?thesis using a b c 2(4)[OF a b c True] 2(5)
            by (auto split: list.splits if_splits dest!: cons_ok_error)
        next
          case False
          then show ?thesis using a b c 2(5) by (simp split: if_splits)
        qed
      qed
    qed
  qed
qed

lemma open_field_error: "open_field f c = Inl e \<Longrightarrow> e = InvalidToken \<or> e = UnicodeDecodeError"
  by (cases c) (auto simp: open_field_def split: if_splits dest: decode_utf8_error)

lemma open_fields_error: "open_fields f pr = Inl e \<Longrightarrow> e = InvalidToken \<or> e = UnicodeDecodeError"
  by (auto simp: open_fields_def split: sum.splits option.splits if_splits dest: open_field_error)

lemma decrypt_all_rows_fails:
  assumes "get_fernet w = Inr (f, w1)" "\<exists>row \<in> set rows. \<not> row_opens f (fst row)"
  shows "\<exists>e. decrypt_all_rows rows w = Inl e \<and> (e = InvalidToken \<or> e = UnicodeDecodeError)"
  using assms
proof (induction rows arbitrary: w)
  case Nil
  then show ?case by simp
next
  case (Cons row rows)
  show ?case
  proof (cases "open_fields f (fst row)")
    case (Inl e)
    then show ?thesis
      using open_fields_error [OF Inl] by (simp add: decrypt_fields_resolved [OF Cons.prems(1)])
  next
    case (Inr x)
    then have "\<exists>row \<in> set rows. \<not> row_opens f (fst row)"
      using Cons.prems(2) by (auto simp: row_opens_def)
    then obtain e where "decrypt_all_rows rows w1 = Inl e" "e = InvalidToken \<or> e = UnicodeDecodeError"
      using Cons.IH [OF get_fernet_again [OF Cons.prems(1)]] by blast
    then show ?thesis
      by (cases x) (simp add: decrypt_fields_resolved [OF Cons.prems(1)] Inr)
  qed
qed

lemma decrypt_user_rows_fails:
  assumes "get_fernet w = Inr (f, w1)" "\<exists>row \<in> set rows. \<not> row_opens f (fst row)"
  shows "\<exists>e. decrypt_user_rows rows w = Inl e \<and> (e = InvalidToken \<or> e = UnicodeDecodeError)"
  using assms
proof (induction rows arbitrary: w)
  case Nil
  then show ?case by simp
next
  case (Cons row rows)
  show ?case
  proof (cases "open_fields f (fst row)")
    case (Inl e)
    then show ?thesis
      using open_fields_error [OF Inl] by (simp add: decrypt_fields_resolved [OF Cons.prems(1)])
  next
    case (Inr x)
    then have "\<exists>row \<in> set rows. \<not> row_opens f (fst row)"
      using Cons.prems(2) by (auto simp: row_opens_def)
    then obtain e where "decrypt_user_rows rows w1 = Inl e" "e = InvalidToken \<or> e = UnicodeDecodeError"
      using Cons.IH [OF get_fernet_again [OF Cons.prems(1)]] by blast
    then show ?thesis
      by (cases x) (simp add: decrypt_fields_resolved [OF Cons.prems(1)] Inr)
  qed
qed

text \<open>The entries that the loops build from rows whose fields open.\<close>

lemma decrypt_all_rows_result:
  assumes "get_fernet w = Inr (f, w1)" "decrypt_all_rows rows w = Inr (rs, w')"
  shows "list_all2 (\<lambda>row r. open_fields f (fst row) = Inr (payraise_date r, raise_amount r, comments r)
            \<and> employee_name r = e_name (snd row) \<and> row_id r = pr_id (fst row)
            \<and> row_user_id r = pr_user_id (fst row)) rows rs"
  using assms
proof (induction rows arbitrary: w rs)
  case Nil
  then show ?case by simp
next
  case (Cons row rows)
  from Cons.prems(2) obtain x where x: "open_fields f (fst row) = Inr x"
    by (cases "open_fields f (fst row)") (simp_all add: decrypt_fields_resolved [OF Cons.prems(1)])
  obtain date amt com where xx: "x = (date, amt, com)" by (cases x) auto
  from Cons.prems(2) obtain rs' where rs': "decrypt_all_rows rows w1 = Inr (rs', w')"
     and rs: "rs = \<lparr>employee_name = e_name (snd row), payraise_date = date,
                   raise_amount = amt, comments = com,
                   row_id = pr_id (fst row), row_user_id = pr_user_id (fst row)\<rparr> # rs'"
    by (auto simp: decrypt_fields_resolved [OF Cons.prems(1)] x xx split: sum.splits)
  show ?case
    using Cons.IH [OF get_fernet_again [OF Cons.prems(1)] rs'] by (simp add: rs x xx)
qed

lemma decrypt_user_rows_result:
  assumes "get_fernet w = Inr (f, w1)" "decrypt_user_rows rows w = Inr (rs, w')"
  shows "list_all2 (\<lambda>row r. open_fields f (fst row) = Inr (payraise_date r, raise_amount r, comments r)
            \<and> employee_name r = e_name (snd row)) rows rs"
  using assms
proof (induction rows arbitrary: w rs)
  case Nil
  then show ?case by simp
next
  case (Cons row rows)
  from Cons.prems(2) obtain x where x: "open_fields f (fst row) = Inr x"
    by (cases "open_fields f (fst row)") (simp_all add: decrypt_fields_resolved [OF Cons.prems(1)])
  obtain date amt com where xx: "x = (date, amt, com)" by (cases x) auto
  from Cons.prems(2) obtain rs' where rs': "decrypt_user_rows rows w1 = Inr (rs', w')"
     and rs: "rs = \<lparr>employee_name = e_name (snd row), payraise_date = date,
                   raise_amount = amt, comments = com\<rparr> # rs'"
    by (auto simp: decrypt_fields_resolved [OF Cons.prems(1)] x xx split: sum.splits)
  show ?case
    using Cons.IH [OF get_fernet_again [OF Cons.prems(1)] rs'] by (simp add: rs x xx)
qed

lemma decrypt_all_rows_succeeds:
  assumes "get_fernet w = Inr (f, w1)" "\<forall>row \<in> set rows. row_opens f (fst row)"
  shows "\<exists>rs w'. decrypt_all_rows rows w = Inr (rs, w') \<and> length rs = length rows"
  using assms
proof (induction rows arbitrary: w)
  case Nil
  then show ?case by simp
next
  case (Cons row rows)
  obtain x where x: "open_fields f (fst row) = Inr x"
    using Cons.prems(2) by (auto simp: row_opens_def split: sum.splits)
  obtain rs w' where "decrypt_all_rows rows w1 = Inr (rs, w')" "length rs = length rows"
    using Cons.IH [OF get_fernet_again [OF Cons.prems(1)]] Cons.prems(2) by auto
  then show ?case
    by (cases x) (simp add: decrypt_fields_resolved [OF Cons.prems(1)] x)
qed

lemma decrypt_user_rows_succeeds:
  assumes "get_fernet w = Inr (f, w1)" "\<forall>row \<in> set rows. row_opens f (fst row)"
  shows "\<exists>rs w'. decrypt_user_rows rows w = Inr (rs, w') \<and> length rs = length rows"
  using assms
proof (induction rows arbitrary: w)
  case Nil
  then show ?case by simp
next
  case (Cons row rows)
  obtain x where x: "open_fields f (fst row) = Inr x"
    using Cons.prems(2) by (auto simp: row_opens_def split: sum.splits)
  obtain rs w' where "decrypt_user_rows rows w1 = Inr (rs, w')" "length rs = length rows"
    using Cons.IH [OF get_fernet_again [OF Cons.prems(1)]] Cons.prems(2) by auto
  then show ?case
    by (cases x) (simp add: decrypt_fields_resolved [OF Cons.prems(1)] x)
qed


section \<open>Order of the listings\<close>

lemma sorted_wrt_join:
  assumes "sorted_wrt (\<lambda>a b. pr_id b \<le> pr_id a) rows"
  shows "sorted_wrt (\<lambda>a b. pr_id (fst b) \<le> pr_id (fst a)) (join_employees d rows)"
  using assms
proof (induction rows)
  case Nil
  then show ?case by (simp add: join_employees_def)
next
  case (Cons pr rows)
  have fst_join: "\<And>x. x \<in> set (join_employees d rows) \<Longrightarrow> fst x \<in> set rows"
    by (auto simp: join_employees_def)
  have same: "sorted_wrt (\<lambda>a b. pr_id (fst b) \<le> pr_id (fst a))
      (map (Pair pr) (filter (\<lambda>e. e_id e = pr_emp_id pr) (Employees d)))"
    by (simp add: sorted_wrt_map sorted_wrt_true)
  have "join_employees d (pr # rows) =
      map (Pair pr) (filter (\<lambda>e. e_id e = pr_emp_id pr) (Employees d)) @ join_employees d rows"
    by (simp add: join_employees_def)
  then show ?case
    using Cons same fst_join by (auto simp: sorted_wrt_append)
qed

lemma sorted_wrt_order_by_id_desc:
  "sorted_wrt (\<lambda>a b. pr_id b \<le> pr_id a) (order_by_id_desc rows)"
proof -
  have "sorted (map pr_id (sort_key pr_id rows))" by (rule sorted_sort_key)
  then have "sorted_wrt (\<lambda>a b. pr_id a \<le> pr_id b) (sort_key pr_id rows)"
    by (simp add: sorted_map)
  then show ?thesis
    by (simp add: order_by_id_desc_def sorted_wrt_rev)
qed

lemma select_all_sorted:
  "sorted_wrt (\<lambda>a b. pr_id (fst b) \<le> pr_id (fst a)) (select_all_payraises d)"
  by (simp add: select_all_payraises_def sorted_wrt_join sorted_wrt_order_by_id_desc)

lemma select_user_sorted:
  "sorted_wrt (\<lambda>a b. pr_id (fst b) \<le> pr_id (fst a)) (select_payraises_for_user uid d)"
  by (simp add: select_payraises_for_user_def sorted_wrt_join sorted_wrt_order_by_id_desc)

lemma fold_max_ge: "(a::int) \<le> fold max xs a"
  by (induction xs arbitrary: a) (auto intro: order_trans [OF max.cobounded2])

lemma fold_max_upper: "x \<in> set xs \<Longrightarrow> (x::int) \<le> fold max xs a"
proof (induction xs arbitrary: a)
  case Nil
  then show ?case by simp
next
  case (Cons y ys)
  then show ?case
    using fold_max_ge [of "max y a" ys] by auto
qed

lemma next_rowid_fresh: "pr \<in> set (EmpPayRaise d) \<Longrightarrow> pr_id pr < next_rowid d"
  using fold_max_upper [of "pr_id pr" "map pr_id (EmpPayRaise d)" "seq_EmpPayRaise d"]
  by (simp add: next_rowid_def)


section \<open>Creating a pay raise\<close>

lemma encrypt_text_Inr:
  assumes "encrypt_text (Some p) d w = Inr (b, w')"
  shows "\<exists>f m. get_fernet w = Inr (f, w') \<and> encode_utf8 (strip p) = Inr m \<and> b = Token f (fst d) (snd d) m"
  using assms by (auto simp: encrypt_text_def fernet_encrypt_def split: sum.splits)

lemma get_fernet_same:
  assumes "get_fernet w = Inr (f, w')" "get_fernet w' = Inr (g, w'')"
  shows "g = f \<and> w'' = w'"
  using get_fernet_again [OF assms(1)] assms(2) by simp

text \<open>What a successful \<open>create_payraise\<close> has done.\<close>

lemma create_payraise_Inr:
  assumes "create_payraise user_id emp_id date_str a c ds w = Inr (rid, w')"
  shows "\<exists>f w1 md ma ec.
           get_fernet w = Inr (f, w1) \<and>
           encode_utf8 (strip (strip date_str)) = Inr md \<and>
           encode_utf8 (strip (format_2f a)) = Inr ma \<and>
           (ec = None \<or> (\<exists>mc s. ec = Some (Token f (fst (snd (snd ds))) (snd (snd (snd ds))) mc) \<and>
               encode_utf8 s = Inr mc)) \<and>
           rid = next_rowid (db w) \<and>
           w' = w1\<lparr>db := (db w)\<lparr>EmpPayRaise := EmpPayRaise (db w) @
                     [\<lparr>pr_id = next_rowid (db w), pr_emp_id = emp_id, pr_user_id = user_id,
                       payraise_date_encrypted = Token f (fst (fst ds)) (snd (fst ds)) md,
                       raiseamt_encrypted = Token f (fst (fst (snd ds))) (snd (fst (snd ds))) ma,
                       comments_encrypted = ec\<rparr>],
                   seq_EmpPayRaise := next_rowid (db w)\<rparr>\<rparr>"
proof -
  from assms obtain b1 w1 where e1: "encrypt_text (Some (strip date_str)) (fst ds) w = Inr (b1, w1)"
    by (auto simp: create_payraise_def split: sum.splits)
  from assms e1 obtain b2 w2 where e2: "encrypt_text (Some (format_2f a)) (fst (snd ds)) w1 = Inr (b2, w2)"
    by (auto simp: create_payraise_def split: sum.splits)
  from encrypt_text_Inr [OF e1] obtain f md where
    g1: "get_fernet w = Inr (f, w1)" and md: "encode_utf8 (strip (strip date_str)) = Inr md"
    and b1: "b1 = Token f (fst (fst ds)) (snd (fst ds)) md" by blast
  from encrypt_text_Inr [OF e2] obtain f2 ma where
    g2: "get_fernet w1 = Inr (f2, w2)" and ma: "encode_utf8 (strip (format_2f a)) = Inr ma"
    and b2: "b2 = Token f2 (fst (fst (snd ds))) (snd (fst (snd ds))) ma" by blast
  have f2: "f2 = f" "w2 = w1" using get_fernet_same [OF g1 g2] by simp_all
  define ec_res where "ec_res = (case c of
                    Some (x # xs) \<Rightarrow>
                      (case encrypt_text (Some (strip (x # xs))) (snd (snd ds)) w2 of
                         Inl e \<Rightarrow> Inl e
                       | Inr (b, w3) \<Rightarrow> Inr (Some b, w3))
                  | _ \<Rightarrow> Inr (None, w2))"
  from assms e1 e2 obtain ec w3 where e3: "ec_res = Inr (ec, w3)"
    by (auto simp: create_payraise_def ec_res_def split: sum.splits)
  have w3: "w3 = w1 \<and> (ec = None \<or> (\<exists>mc s. ec = Some (Token f (fst (snd (snd ds))) (snd (snd (snd ds))) mc) \<and>
               encode_utf8 s = Inr mc))"
  proof (cases "\<exists>x xs. c = Some (x # xs)")
    case True
    then obtain x xs where c: "c = Some (x # xs)" by blast
    from e3 obtain b where e: "encrypt_text (Some (strip (x # xs))) (snd (snd ds)) w1 = Inr (b, w3)" "ec = Some b"
      by (auto simp: ec_res_def c f2 split: sum.splits)
    from encrypt_text_Inr [OF e(1)] obtain f3 mc where
      "get_fernet w1 = Inr (f3, w3)" "encode_utf8 (strip (strip (x # xs))) = Inr mc"
      "b = Token f3 (fst (snd (snd ds))) (snd (snd (snd ds))) mc" by blast
    then show ?thesis using get_fernet_same [OF g1, of f3 w3] e(2) by auto
  next
    case False
    then have "ec_res = Inr (None, w2)"
      by (auto simp: ec_res_def split: option.splits list.splits)
    then show ?thesis using e3 f2 by simp
  qed
  have dbw: "db w1 = db w" using get_fernet_db [OF g1] .
  from assms e1 e2 e3 have
    "Inr (rid, w') = (case insert_payraise get_connection emp_id user_id b1 b2 ec (db w3) of
                 Inl e \<Rightarrow> Inl e
               | Inr (rowid, d) \<Rightarrow> Inr (rowid, w3\<lparr>db := d\<rparr>))"
    unfolding ec_res_def by (simp add: create_payraise_def)
  then have "rid = next_rowid (db w) \<and> w' = w1\<lparr>db := (db w)\<lparr>EmpPayRaise := EmpPayRaise (db w) @
                     [\<lparr>pr_id = next_rowid (db w), pr_emp_id = emp_id, pr_user_id = user_id,
                       payraise_date_encrypted = b1,
                       raiseamt_encrypted = b2,
                       comments_encrypted = ec\<rparr>],
                   seq_EmpPayRaise := next_rowid (db w)\<rparr>\<rparr>"
    using w3 dbw by (simp add: insert_payraise_def get_connection_def)
  then show ?thesis using g1 md ma w3 b1 b2 f2 by blast
qed


section \<open>The newest row and its amount\<close>





lemma dropWhile_id: "xs \<noteq> [] \<Longrightarrow> \<not> P (hd xs) \<Longrightarrow> dropWhile P xs = xs"
  by (cases xs) auto

lemma strip_id:
  assumes "s \<noteq> []" "\<not> isspace (hd s)" "\<not> isspace (last s)"
  shows "strip s = s"
proof -
  have 1: "dropWhile isspace s = s" using assms by (simp add: dropWhile_id)
  have "hd (rev s) = last s" "rev s \<noteq> []" using assms(1) by (simp_all add: hd_rev)
  then have 2: "dropWhile isspace (rev s) = rev s"
    using assms(3) dropWhile_id [of "rev s" isspace] by simp
  show ?thesis by (simp add: strip_def 1 2)
qed

lemma digits_set: "c \<in> set (digits n) \<Longrightarrow> 48 \<le> c \<and> c \<le> 57"
proof (induction n rule: digits.induct)
  case (1 n)
  show ?case
  proof (cases "n < 10")
    case True
    then show ?thesis using 1(2) by (simp add: digits.simps [of n])
  next
    case False
    then have "c \<in> set (digits (n div 10)) \<or> c = 48 + n mod 10"
      using 1(2) by (subst (asm) digits.simps) auto
    then show ?thesis using 1(1) [OF False] by auto
  qed
qed

lemma digits_nonempty: "digits n \<noteq> []"
  by (simp add: digits.simps [of n])

lemma strip_format_2f: "strip (format_2f a) = format_2f a"
proof (cases a)
  case (Finite neg m e)
  define s where "s = format_2f a"
  have s: "s = (if neg then [45] else []) @ digits (hundredths m e div 100) @
          [46, 48 + hundredths m e mod 100 div 10, 48 + hundredths m e mod 10]"
    by (simp add: s_def Finite format_2f_def)
  have ne: "s \<noteq> []" using s by simp
  have "last s = 48 + hundredths m e mod 10" using s by simp
  moreover have "hundredths m e mod 10 < 10" by simp
  ultimately have l: "\<not> isspace (last s)" unfolding isspace_def by linarith
  have "hd s = 45 \<or> hd s = hd (digits (hundredths m e div 100))"
    using s digits_nonempty by (simp add: hd_append)
  moreover have "48 \<le> hd (digits (hundredths m e div 100)) \<and> hd (digits (hundredths m e div 100)) \<le> 57"
    using digits_set [of "hd (digits (hundredths m e div 100))" "hundredths m e div 100"]
      digits_nonempty [of "hundredths m e div 100"] by simp
  ultimately have h: "\<not> isspace (hd s)" by (auto simp: isspace_def)
  show ?thesis using strip_id [OF ne h l] by (simp add: s_def)
next
  case (Infinite neg)
  then show ?thesis by (simp add: format_2f_def strip_def py_def isspace_def)
next
  case NaN
  then show ?thesis by (simp add: format_2f_def strip_def py_def isspace_def)
qed











section \<open>Evaluating the number conversions\<close>

lemmas float_defs = float_of_str_def to_ascii_def strip_ascii_def ascii_space_def split_sign_def
  is_digit_def parse_decimal_def parse_exponent_def nat_of_digits_def float_of_decimal_def
  nearest_double_def round_half_even_def lower_def py_def bit_length.simps

section \<open>Generated keys\<close>























section \<open>Evaluation of the example states\<close>

lemma Fernet_demo_key: "Fernet (pyb demo_key_text) = Inr demo_key"
  by (simp add: Fernet_def urlsafe_b64decode_def b64_value_def byte_def demo_key_def
      demo_key_text_def pyb_def)

lemma get_fernet_seeded: "get_fernet seeded = Inr (demo_key, seeded_loaded)"
  by (simp add: get_fernet_def load_fernet_key_def seeded_def seeded_loaded_def Fernet_demo_key)

lemma get_fernet_seeded_loaded: "get_fernet seeded_loaded = Inr (demo_key, seeded_loaded)"
  by (rule get_fernet_again [OF get_fernet_seeded])

lemmas utf8_eval = encode_char_def byte_def py_def pyb_def cons_ok_def

lemma encode_examples:
  "encode_utf8 (py ''2025-06-01'') = Inr (pyb ''2025-06-01'')"
  "encode_utf8 (py ''12.50'') = Inr (pyb ''12.50'')"
  by (simp_all add: utf8_eval)

lemma decode_examples:
  "decode_utf8 (pyb ''2025-06-01'') = Inr (py ''2025-06-01'')"
  "decode_utf8 (pyb ''12.50'') = Inr (py ''12.50'')"
  "decode_utf8 (pyb ''2025-01-01'') = Inr (py ''2025-01-01'')"
  "decode_utf8 (pyb ''1250.00'') = Inr (py ''1250.00'')"
  "decode_utf8 (pyb ''Annual merit increase'') = Inr (py ''Annual merit increase'')"
  by (simp_all add: utf8_eval)

lemma strip_examples:
  "strip (py ''2025-06-01'') = py ''2025-06-01''"
  by (simp_all add: strip_def py_def isspace_def)

lemma format_example: "format_2f (Finite False 25 (- 1)) = py ''12.50''"
  by (simp add: format_2f_def hundredths_def round_half_even_def digits.simps py_def)

lemma get_fernet_loaded:
  "FERNET_INSTANCE w = Some f \<Longrightarrow> get_fernet w = Inr (f, w)"
  by (simp add: get_fernet_def)

lemma encrypt_seeded:
  "encrypt_text (Some (py ''2025-06-01'')) demo_draw seeded =
     Inr (Token demo_key 1762560000 [7] (pyb ''2025-06-01''), seeded_loaded)"
  "encrypt_text (Some (py ''12.50'')) demo_draw seeded_loaded =
     Inr (Token demo_key 1762560000 [7] (pyb ''12.50''), seeded_loaded)"
  using encrypt_text_ok [OF get_fernet_seeded, of "py ''2025-06-01''" "pyb ''2025-06-01''" demo_draw]
    encrypt_text_ok [OF get_fernet_seeded_loaded, of "py ''12.50''" "pyb ''12.50''" demo_draw]
  by (simp_all add: strip_examples encode_examples strip_format_2f [of "Finite False 25 (- 1)", unfolded format_example] demo_draw_def)

lemma db_seeded_loaded: "db seeded_loaded = seeded_db"
  by (simp add: seeded_loaded_def seeded_def)

lemma next_rowid_seeded: "next_rowid seeded_db = 2"
  by (simp add: next_rowid_def seeded_db_def)

lemma create_payraise_seeded:
  "create_payraise 1 1 (py ''2025-06-01'') (Finite False 25 (- 1)) None
     (demo_draw, demo_draw, demo_draw) seeded = Inr (2, after_create)"
  by (simp add: create_payraise_def strip_examples format_example encrypt_seeded
      insert_payraise_def get_connection_def db_seeded_loaded next_rowid_seeded
      after_create_def second_row_def)

lemma create_payraise_dangling:
  "create_payraise 1 999 (py ''2025-06-01'') (Finite False 25 (- 1)) None
     (demo_draw, demo_draw, demo_draw) seeded = Inr (2, after_dangling)"
  by (simp add: create_payraise_def strip_examples format_example encrypt_seeded
      insert_payraise_def get_connection_def db_seeded_loaded next_rowid_seeded
      after_dangling_def dangling_row_def)


lemmas example_states = seeded_loaded_def seeded_def seeded_db_def

lemmas listing_eval = get_all_payraises_def get_payraises_for_user_def select_all_payraises_def
  select_payraises_for_user_def order_by_id_desc_def join_employees_def decrypt_fields_def
  decrypt_text_def get_fernet_def load_fernet_key_def Fernet_demo_key decode_examples

lemma get_all_payraises_after_create:
  "get_all_payraises after_create =
     Inr ([second_listed, first_listed], after_create)"
  by (simp add: listing_eval example_states after_create_def second_row_def first_listed_def second_listed_def)

lemma get_payraises_for_user_after_create:
  "get_payraises_for_user 1 after_create = Inr ([second_entry, first_entry], after_create)"
  by (simp add: listing_eval example_states after_create_def second_row_def first_entry_def second_entry_def)

lemma get_all_payraises_seeded:
  "get_all_payraises seeded =
     Inr ([first_listed], seeded_loaded)"
  by (simp add: listing_eval example_states first_listed_def second_listed_def)

lemma get_payraises_for_user_seeded:
  "get_payraises_for_user 1 seeded = Inr ([first_entry], seeded_loaded)"
  by (simp add: listing_eval example_states first_entry_def)

lemma get_all_payraises_after_dangling:
  "get_all_payraises after_dangling =
     Inr ([first_listed], after_dangling)"
  by (simp add: listing_eval example_states after_dangling_def dangling_row_def first_listed_def second_listed_def)

lemma listings_corrupted:
  "get_all_payraises corrupted = Inl InvalidToken"
  "get_payraises_for_user 1 corrupted = Inl InvalidToken"
  by (simp_all add: listing_eval example_states corrupted_def)

lemma get_fernet_corrupted:
  "get_fernet corrupted = Inr (demo_key, corrupted\<lparr>FERNET_INSTANCE := Some demo_key\<rparr>)"
  by (simp add: get_fernet_def load_fernet_key_def corrupted_def seeded_def Fernet_demo_key)

lemma corrupted_row_listed:
  "\<exists>row \<in> set (select_all_payraises (db corrupted)). \<not> row_opens demo_key (fst row)"
  "\<exists>row \<in> set (select_payraises_for_user 1 (db corrupted)). \<not> row_opens demo_key (fst row)"
  by (simp_all add: select_all_payraises_def select_payraises_for_user_def order_by_id_desc_def
      join_employees_def example_states corrupted_def row_opens_def open_fields_def open_field_def
      decode_examples)

lemma seeded_rows_open:
  "\<forall>row \<in> set (select_all_payraises (db seeded)). row_opens demo_key (fst row)"
  "\<forall>row \<in> set (select_payraises_for_user 1 (db seeded)). row_opens demo_key (fst row)"
  by (simp_all add: select_all_payraises_def select_payraises_for_user_def order_by_id_desc_def
      join_employees_def example_states row_opens_def open_fields_def open_field_def
      decode_examples)


lemmas date_eval = is_valid_date_def strip_def isspace_def strptime_ymd_def match_ymd_def
  match_year_def match_month_def match_day_def match_dash_def decimal_value_def
  decimal_zeros_def days_in_month_def is_leap_def

lemma payraise_post_fields:
  "field (req_form payraise_post) ''payraise_date'' = py ''2025-01-01''"
  "field (req_form payraise_post) ''raise_amount'' = py ''12.5''"
  "field (req_form payraise_post) ''comments'' = py ''Annual merit increase''"
  by (simp_all add: field_def payraise_post_def strip_def isspace_def py_def)

lemma payraise_post_valid:
  "is_valid_date (py ''2025-01-01'')" "is_positive_number (py ''12.5'')"
  by (simp add: date_eval py_def)
     (simp add: is_positive_number_def strip_def isspace_def float_defs)

lemma payraise_post_no_errors:
  "form_errors (PayRaiseForm_from_mapping (req_form payraise_post)) = []"
  by (simp add: PayRaiseForm_from_mapping_def payraise_post_fields payraise_post_valid)

lemma employee_post_fields:
  "field (req_form employee_post) ''name'' = py ''Dan New''"
  "field (req_form employee_post) ''email'' = py ''dan@example.com''"
  "field (req_form employee_post) ''department'' = py ''Support''"
  "field (req_form employee_post) ''security_level'' = py ''1''"
  by (simp_all add: field_def employee_post_def strip_def isspace_def py_def)

lemma int_of_str_1: "int_of_str (py ''1'') = Inr 1"
  by (simp add: int_of_str_def to_ascii_def strip_ascii_def ascii_space_def split_sign_def
      is_digit_def nat_of_digits_def py_def)

lemma employee_post_form:
  "EmployeeForm_from_mapping (req_form employee_post) =
     \<lparr>ef_name = py ''Dan New'', ef_email = py ''dan@example.com'', ef_department = py ''Support'',
      ef_security_level = Some 1, ef_errors = []\<rparr>"
  by (simp add: EmployeeForm_from_mapping_def employee_post_fields int_of_str_1)
     (simp add: py_def)

text \<open>
  The insertion that \<open>create_payraise\<close> makes for the employee id 999 is refused on a
  connection that enforces foreign keys, as the one of \<open>initialize_database\<close> does.
\<close>

lemma enforcing_connection_refuses:
  "insert_payraise \<lparr>foreign_keys = True\<rparr> 999 1
     (payraise_date_encrypted dangling_row) (raiseamt_encrypted dangling_row) None (db seeded)
     = Inl IntegrityError"
  by (simp add: example_states dangling_row_def insert_payraise_def)

section \<open>Rows and entries, position by position\<close>

lemma decrypt_fields_needs_key:
  assumes "decrypt_fields pr w = Inr (x, w')"
  shows "\<exists>f w1. get_fernet w = Inr (f, w1)"
  using assms by (auto simp: decrypt_fields_def decrypt_text_def split: sum.splits)

lemma decrypt_all_rows_key:
  assumes "decrypt_all_rows rows w = Inr (rs, w')" "rows \<noteq> []"
  shows "\<exists>f w1. get_fernet w = Inr (f, w1)"
  using assms by (cases rows) (auto split: sum.splits dest: decrypt_fields_needs_key)

lemma decrypt_user_rows_key:
  assumes "decrypt_user_rows rows w = Inr (rs, w')" "rows \<noteq> []"
  shows "\<exists>f w1. get_fernet w = Inr (f, w1)"
  using assms by (cases rows) (auto split: sum.splits dest: decrypt_fields_needs_key)

lemma decrypt_all_rows_positions:
  assumes "decrypt_all_rows rows w = Inr (rs, w')"
  shows "\<exists>f. list_all2 (\<lambda>row r. open_fields f (fst row) = Inr (payraise_date r, raise_amount r, comments r)
            \<and> employee_name r = e_name (snd row) \<and> row_id r = pr_id (fst row)
            \<and> row_user_id r = pr_user_id (fst row)) rows rs"
proof (cases "rows = []")
  case True
  then show ?thesis using assms by simp
next
  case False
  then obtain f w1 where "get_fernet w = Inr (f, w1)"
    using decrypt_all_rows_key [OF assms] by blast
  then show ?thesis using decrypt_all_rows_result [OF _ assms] by blast
qed

lemma decrypt_user_rows_positions:
  assumes "decrypt_user_rows rows w = Inr (rs, w')"
  shows "\<exists>f. list_all2 (\<lambda>row r. open_fields f (fst row) = Inr (payraise_date r, raise_amount r, comments r)
            \<and> employee_name r = e_name (snd row)) rows rs"
proof (cases "rows = []")
  case True
  then show ?thesis using assms by simp
next
  case False
  then obtain f w1 where "get_fernet w = Inr (f, w1)"
    using decrypt_user_rows_key [OF assms] by blast
  then show ?thesis using decrypt_user_rows_result [OF _ assms] by blast
qed

section \<open>Access control\<close>

text \<open>
  What the guards decide for a logged-in session, route by route: \<open>add_employee\<close> runs
  its view for every level from 1 upwards, \<open>list_employees\<close> for the levels 1 and 2,
  \<open>list_payraises\<close> for the level 2 only, and \<open>add_payraise\<close> for every session.
\<close>

lemma guards_as_coded:
  assumes "sess_user_id sess \<noteq> None"
  shows "add_employee req sess w =
           (case sess_security_level sess of
              None \<Rightarrow> Inr (Render ''error.html'' 404, [py ''Page not found''], w)
            | Some l \<Rightarrow> if 1 \<le> l then add_employee_view req sess w
                        else Inr (Render ''error.html'' 404, [py ''Page not found''], w))"
    and "list_employees req sess w =
           (if sess_security_level sess = Some 1 \<or> sess_security_level sess = Some 2
            then Inr (Render ''list_employees.html'' 200, [], w)
            else Inr (Render ''error.html'' 404, [py ''Page not found''], w))"
    and "list_payraises req sess w =
           (if sess_security_level sess = Some 2 then list_payraises_view req sess w
            else Inr (Render ''error.html'' 404, [py ''Page not found''], w))"
    and "add_payraise ds req sess w = add_payraise_view ds req sess w"
  using assms
  by (auto simp: add_employee_def list_employees_def list_payraises_def add_payraise_def
      login_required_def requires_security_level_def list_employees_view_def
      list_payraises_view_def split: option.splits)

text \<open>
  C1, at the failing input. The session of the seeded staff user, security level 3,
  passes both guards of \<open>add_employee\<close>: a GET shows the form, and a POST of a valid form
  stores a new employee. The same session is refused by \<open>list_employees\<close>, whose body
  checks the level again.
\<close>

theorem staff_can_add_employee:
  "sess_security_level staff_session = Some 3 \<and>
   add_employee get_request staff_session seeded = Inr (Render ''add_employee.html'' 200, [], seeded) \<and>
   add_employee employee_post staff_session seeded =
     Inr (Redirect ''result'', [py ''Employee added successfully.''],
          seeded\<lparr>db := seeded_db\<lparr>Employees := Employees seeded_db @ [new_employee],
                                 seq_Employees := 4\<rparr>\<rparr>) \<and>
   list_employees get_request staff_session seeded =
     Inr (Render ''error.html'' 404, [py ''Page not found''], seeded)"
proof -
  have m: "req_method employee_post = ''POST''" "req_method get_request = ''GET''"
    by (simp_all add: employee_post_def get_request_def)
  have c: "create_employee (py ''Dan New'') (py ''dan@example.com'') (py ''Support'') 1 seeded =
      (4, seeded\<lparr>db := seeded_db\<lparr>Employees := Employees seeded_db @ [new_employee],
                                 seq_Employees := 4\<rparr>\<rparr>)"
    by (simp add: create_employee_def seeded_def seeded_db_def new_employee_def)
  show ?thesis
    by (simp add: add_employee_def list_employees_def login_required_def
        requires_security_level_def add_employee_view_def list_employees_view_def posted_def m
        employee_post_form c staff_session_def)
qed

section \<open>Decryption failures in the listings\<close>

text \<open>
  C2, as the code has it. In a state where the key resolves: when a sensitive field of
  any listed row fails to decrypt, \<open>get_all_payraises\<close> and \<open>get_payraises_for_user\<close>
  raise that error (\<open>InvalidToken\<close> or \<open>UnicodeDecodeError\<close>) and return no entry at all;
  when the fields of all listed rows decrypt, they return one entry for every row.
\<close>

theorem listing_fails_as_a_whole:
  assumes "get_fernet w = Inr (f, w1)"
  shows "((\<exists>row \<in> set (select_all_payraises (db w)). \<not> row_opens f (fst row)) \<longrightarrow>
            (\<exists>e. get_all_payraises w = Inl e \<and> (e = InvalidToken \<or> e = UnicodeDecodeError))) \<and>
         ((\<forall>row \<in> set (select_all_payraises (db w)). row_opens f (fst row)) \<longrightarrow>
            (\<exists>rs w'. get_all_payraises w = Inr (rs, w') \<and>
                length rs = length (select_all_payraises (db w)))) \<and>
         ((\<exists>row \<in> set (select_payraises_for_user user_id (db w)). \<not> row_opens f (fst row)) \<longrightarrow>
            (\<exists>e. get_payraises_for_user user_id w = Inl e \<and>
                (e = InvalidToken \<or> e = UnicodeDecodeError))) \<and>
         ((\<forall>row \<in> set (select_payraises_for_user user_id (db w)). row_opens f (fst row)) \<longrightarrow>
            (\<exists>rs w'. get_payraises_for_user user_id w = Inr (rs, w') \<and>
                length rs = length (select_payraises_for_user user_id (db w))))"
  unfolding get_all_payraises_def get_payraises_for_user_def
  using decrypt_all_rows_fails [OF assms] decrypt_all_rows_succeeds [OF assms]
    decrypt_user_rows_fails [OF assms] decrypt_user_rows_succeeds [OF assms]
  by blast

theorem listing_fails_as_a_whole_witness:
  "(\<exists>e. get_all_payraises corrupted = Inl e \<and> (e = InvalidToken \<or> e = UnicodeDecodeError)) \<and>
   (\<exists>e. get_payraises_for_user 1 corrupted = Inl e \<and> (e = InvalidToken \<or> e = UnicodeDecodeError)) \<and>
   (\<exists>rs w'. get_all_payraises seeded = Inr (rs, w') \<and>
       length rs = length (select_all_payraises (db seeded))) \<and>
   (\<exists>rs w'. get_payraises_for_user 1 seeded = Inr (rs, w') \<and>
       length rs = length (select_payraises_for_user 1 (db seeded)))"
  using listing_fails_as_a_whole [OF get_fernet_corrupted, of 1]
    listing_fails_as_a_whole [OF get_fernet_seeded, of 1]
    corrupted_row_listed seeded_rows_open
  by blast

theorem one_bad_row_aborts_the_listing:
  "row_opens demo_key (hd (EmpPayRaise (db corrupted))) \<and>
   get_all_payraises corrupted = Inl InvalidToken \<and>
   get_payraises_for_user 1 corrupted = Inl InvalidToken"
  by (simp add: listings_corrupted)
     (simp add: example_states corrupted_def row_opens_def open_fields_def open_field_def decode_examples)

section \<open>Referential integrity\<close>

text \<open>
  C3, at the failing input. \<open>create_payraise\<close> for the employee id 999, which is not in
  \<open>Employees\<close>, returns the new row id and the row is stored; the listings, which join
  on the employee, then do not show it.
\<close>

theorem dangling_payraise_is_persisted:
  "999 \<notin> set (map e_id (Employees (db seeded))) \<and>
   create_payraise 1 999 (py ''2025-06-01'') (Finite False 25 (- 1)) None
     (demo_draw, demo_draw, demo_draw) seeded = Inr (2, after_dangling) \<and>
   EmpPayRaise (db after_dangling) = EmpPayRaise (db seeded) @ [dangling_row] \<and>
   pr_emp_id dangling_row = 999 \<and>
   get_all_payraises after_dangling =
     Inr ([first_listed], after_dangling)"
  by (simp add: create_payraise_dangling get_all_payraises_after_dangling)
     (simp add: example_states after_dangling_def dangling_row_def)

section \<open>Key resolution\<close>




section \<open>The field cipher: round trip and randomness\<close>

text \<open>
  C5. For every string \<open>x\<close> that UTF-8 can encode, and in every state in which the key
  resolves, \<open>encrypt_text x\<close> returns a ciphertext \<open>c\<close>, and \<open>decrypt_text c\<close> returns
  \<open>x.strip()\<close>.
\<close>

theorem decrypt_encrypt_roundtrip:
  assumes "valid_str x" and "get_fernet w = Inr (f, w')"
  shows "\<exists>c. encrypt_text (Some x) d w = Inr (c, w') \<and>
             decrypt_text (Some c) w' = Inr (strip x, w')"
proof -
  obtain m where m: "encode_utf8 (strip x) = Inr m"
    using encode_utf8_valid valid_str_strip assms(1) by blast
  have "decrypt_text (Some (Token f (fst d) (snd d) m)) w' = Inr (strip x, w')"
    using decrypt_text_token [OF get_fernet_again [OF assms(2)] decode_encode_utf8 [OF m]] .
  then show ?thesis using encrypt_text_ok [OF assms(2) m] by simp
qed

theorem decrypt_encrypt_roundtrip_witness:
  "\<exists>c. encrypt_text (Some (py ''  Annual merit increase '')) demo_draw seeded = Inr (c, seeded_loaded) \<and>
       decrypt_text (Some c) seeded_loaded = Inr (py ''Annual merit increase'', seeded_loaded)"
proof -
  have v: "valid_str (py ''  Annual merit increase '')"
    by (simp add: valid_str_def py_def is_surrogate_def)
  have s: "strip (py ''  Annual merit increase '') = py ''Annual merit increase''"
    by (simp add: strip_def py_def isspace_def)
  show ?thesis
    using decrypt_encrypt_roundtrip [OF v get_fernet_seeded, of demo_draw] by (simp add: s)
qed

text \<open>
  The ciphertext of a text is a function of the draw: with the same key, two calls of
  \<open>encrypt_text\<close> on the same text return the same ciphertext exactly when their draws,
  the clock reading and the random bytes, are the same.
\<close>

lemma ciphertext_determined_by_draw:
  assumes "valid_str x" and "get_fernet w = Inr (f, w')"
  shows "encrypt_text (Some x) d1 w = encrypt_text (Some x) d2 w' \<longleftrightarrow> d1 = d2"
proof -
  obtain m where m: "encode_utf8 (strip x) = Inr m"
    using encode_utf8_valid valid_str_strip assms(1) by blast
  show ?thesis
    using encrypt_text_ok [OF assms(2) m, of d1]
      encrypt_text_ok [OF get_fernet_again [OF assms(2)] m, of d2]
    by (auto simp: prod_eq_iff)
qed

section \<open>Validators\<close>

text \<open>
  C7. \<open>is_valid_date("2025-02-30")\<close> is false, \<open>is_positive_number("-5")\<close> and
  \<open>is_positive_number("0")\<close> are false, and \<open>is_positive_number("12.50")\<close> is true.
\<close>

theorem validators_on_the_examples:
  "is_valid_date (py ''2025-02-30'') = False \<and>
   is_positive_number (py ''-5'') = False \<and>
   is_positive_number (py ''0'') = False \<and>
   is_positive_number (py ''12.50'') = True"
proof -
  have "is_valid_date (py ''2025-02-30'') = False"
    by (simp add: is_valid_date_def py_def strip_def isspace_def strptime_ymd_def match_ymd_def
      match_year_def match_month_def match_day_def match_dash_def decimal_value_def
      decimal_zeros_def days_in_month_def is_leap_def)
  moreover have "is_positive_number (py ''-5'') = False"
    by (simp add: is_positive_number_def strip_def isspace_def float_defs)
  moreover have "is_positive_number (py ''0'') = False"
    by (simp add: is_positive_number_def strip_def isspace_def float_defs)
  moreover have "is_positive_number (py ''12.50'') = True"
    by (simp add: is_positive_number_def strip_def isspace_def float_defs)
  ultimately show ?thesis by blast
qed

section \<open>Order of the listings and the listed amount\<close>

text \<open>
  C8. Both listings are in the order of \<open>ORDER BY pr.id DESC\<close>: the entries of
  \<open>get_all_payraises\<close> have descending ids, and the entries of both functions are,
  position by position, the decrypted rows of the query, whose ids descend. Ids record
  the order of creation: \<open>create_payraise\<close> gives the new row an id above every id in the
  table. So a row created later is listed before a row created earlier.
\<close>

theorem listings_newest_first:
  "(get_all_payraises w = Inr (rs, w') \<longrightarrow>
      sorted_wrt (\<lambda>a b. row_id b \<le> row_id a) rs \<and>
      map row_id rs = map (\<lambda>row. pr_id (fst row)) (select_all_payraises (db w))) \<and>
   (get_payraises_for_user user_id w = Inr (us, w'') \<longrightarrow>
      sorted_wrt (\<lambda>a b. pr_id (fst b) \<le> pr_id (fst a)) (select_payraises_for_user user_id (db w)) \<and>
      (\<exists>f. list_all2
             (\<lambda>row r. open_fields f (fst row) = Inr (payraise_date r, raise_amount r, comments r) \<and>
                       employee_name r = e_name (snd row))
             (select_payraises_for_user user_id (db w)) us)) \<and>
   (create_payraise uid emp_id date_str a c ds w = Inr (rid, w2) \<longrightarrow>
      (\<forall>pr \<in> set (EmpPayRaise (db w)). pr_id pr < rid) \<and>
      (\<exists>new. EmpPayRaise (db w2) = EmpPayRaise (db w) @ [new] \<and> pr_id new = rid))"
proof -
  have 1: "sorted_wrt (\<lambda>a b. row_id b \<le> row_id a) rs \<and>
      map row_id rs = map (\<lambda>row. pr_id (fst row)) (select_all_payraises (db w))"
    if "get_all_payraises w = Inr (rs, w')"
  proof -
    from that obtain f where
      "list_all2 (\<lambda>row r. open_fields f (fst row) = Inr (payraise_date r, raise_amount r, comments r)
            \<and> employee_name r = e_name (snd row) \<and> row_id r = pr_id (fst row)
            \<and> row_user_id r = pr_user_id (fst row)) (select_all_payraises (db w)) rs"
      using decrypt_all_rows_positions unfolding get_all_payraises_def by blast
    then have "list_all2 (\<lambda>row r. row_id r = pr_id (fst row)) (select_all_payraises (db w)) rs"
      by (rule list_all2_mono) simp
    then have m: "map row_id rs = map (\<lambda>row. pr_id (fst row)) (select_all_payraises (db w))"
      by (induction rule: list_all2_induct) simp_all
    have "sorted_wrt (\<lambda>a b. row_id b \<le> row_id a) rs \<longleftrightarrow>
          sorted_wrt (\<lambda>a b. b \<le> a) (map row_id rs)"
      by (simp add: sorted_wrt_map)
    also have "\<dots> \<longleftrightarrow>
          sorted_wrt (\<lambda>a b. b \<le> a) (map (\<lambda>row. pr_id (fst row)) (select_all_payraises (db w)))"
      by (simp only: m)
    also have "\<dots> \<longleftrightarrow>
          sorted_wrt (\<lambda>a b. pr_id (fst b) \<le> pr_id (fst a)) (select_all_payraises (db w))"
      by (simp add: sorted_wrt_map)
    finally show ?thesis using m select_all_sorted [of "db w"] by simp
  qed
  have 2: "\<exists>f. list_all2
             (\<lambda>row r. open_fields f (fst row) = Inr (payraise_date r, raise_amount r, comments r) \<and>
                       employee_name r = e_name (snd row))
             (select_payraises_for_user user_id (db w)) us"
    if "get_payraises_for_user user_id w = Inr (us, w'')"
    using that decrypt_user_rows_positions unfolding get_payraises_for_user_def by blast
  have 3: "(\<forall>pr \<in> set (EmpPayRaise (db w)). pr_id pr < rid) \<and>
      (\<exists>new. EmpPayRaise (db w2) = EmpPayRaise (db w) @ [new] \<and> pr_id new = rid)"
    if "create_payraise uid emp_id date_str a c ds w = Inr (rid, w2)"
  proof -
    from create_payraise_Inr [OF that] obtain f w1 md ma ec where
      rid: "rid = next_rowid (db w)" and
      w2: "w2 = w1\<lparr>db := (db w)\<lparr>EmpPayRaise := EmpPayRaise (db w) @
                     [\<lparr>pr_id = next_rowid (db w), pr_emp_id = emp_id, pr_user_id = uid,
                       payraise_date_encrypted = Token f (fst (fst ds)) (snd (fst ds)) md,
                       raiseamt_encrypted = Token f (fst (fst (snd ds))) (snd (fst (snd ds))) ma,
                       comments_encrypted = ec\<rparr>],
                   seq_EmpPayRaise := next_rowid (db w)\<rparr>\<rparr>"
      by blast
    show ?thesis using next_rowid_fresh [of _ "db w"] by (simp add: rid w2)
  qed
  show ?thesis using 1 2 3 select_user_sorted [of user_id "db w"] by blast
qed

theorem listings_newest_first_witness:
  "get_all_payraises after_create = Inr ([second_listed, first_listed], after_create) \<and>
   sorted_wrt (\<lambda>a b. row_id b \<le> row_id a) [second_listed, first_listed] \<and>
   map row_id [second_listed, first_listed] = [2, 1] \<and>
   get_payraises_for_user 1 after_create = Inr ([second_entry, first_entry], after_create) \<and>
   (\<exists>f. list_all2
          (\<lambda>row r. open_fields f (fst row) = Inr (payraise_date r, raise_amount r, comments r) \<and>
                    employee_name r = e_name (snd row))
          (select_payraises_for_user 1 (db after_create)) [second_entry, first_entry]) \<and>
   create_payraise 1 1 (py ''2025-06-01'') (Finite False 25 (- 1)) None
     (demo_draw, demo_draw, demo_draw) seeded = Inr (2, after_create) \<and>
   (\<exists>new. EmpPayRaise (db after_create) = EmpPayRaise (db seeded) @ [new] \<and> pr_id new = 2)"
proof -
  have ids: "map (\<lambda>row. pr_id (fst row)) (select_all_payraises (db after_create)) = [2, 1]"
    by (simp add: select_all_payraises_def order_by_id_desc_def join_employees_def example_states after_create_def second_row_def)
  show ?thesis
    using listings_newest_first [of after_create "[second_listed, first_listed]" after_create 1
        "[second_entry, first_entry]" after_create 1 1 "py ''2025-06-01''"
        "Finite False 25 (- 1)" None "(demo_draw, demo_draw, demo_draw)" 0 seeded]
      listings_newest_first [of seeded "[]" seeded 1 "[]" seeded 1 1 "py ''2025-06-01''"
        "Finite False 25 (- 1)" None "(demo_draw, demo_draw, demo_draw)" 2 after_create]
      get_all_payraises_after_create get_payraises_for_user_after_create create_payraise_seeded
    by (simp only: ids simp_thms)
qed




section \<open>A user without an employee\<close>

text \<open>
  C10. A logged-in session without an employee link that posts a pay-raise form without
  input errors gets the page \<open>error.html\<close> with status 404 and the message
  \<open>Page not found\<close>, which is what the security-level guard answers when it denies, and
  the state, the pay raises included, is as before.
\<close>

theorem unlinked_user_is_denied:
  assumes "sess_user_id sess \<noteq> None" and "sess_emp_id sess = None"
    and "req_method req = ''POST''"
    and "form_errors (PayRaiseForm_from_mapping (req_form req)) = []"
  shows "add_payraise ds req sess w = Inr (Render ''error.html'' 404, [py ''Page not found''], w) \<and>
         add_payraise ds req sess w =
           requires_security_level 1 v req (sess\<lparr>sess_security_level := None\<rparr>) w"
  using assms
  by (simp add: add_payraise_def login_required_def add_payraise_view_def posted_def
      requires_security_level_def)

theorem unlinked_user_is_denied_witness:
  "add_payraise (demo_draw, demo_draw, demo_draw) payraise_post unlinked_session seeded =
     Inr (Render ''error.html'' 404, [py ''Page not found''], seeded) \<and>
   sess_user_id unlinked_session = Some 4 \<and> sess_emp_id unlinked_session = None \<and>
   form_errors (PayRaiseForm_from_mapping (req_form payraise_post)) = []"
proof -
  have h: "sess_user_id unlinked_session \<noteq> None" "sess_emp_id unlinked_session = None"
    "req_method payraise_post = ''POST''"
    by (simp_all add: unlinked_session_def payraise_post_def)
  show ?thesis
    using unlinked_user_is_denied [OF h payraise_post_no_errors, of "(demo_draw, demo_draw, demo_draw)" seeded]
      payraise_post_no_errors
    by (simp add: unlinked_session_def)
qed

end
